theory Spec2Isabelle
  imports Main "HOL-Library.Finite_Map"
begin

section \<open>Text and the Unicode tables of the interpreter\<close>

text \<open>
  A Python \<open>str\<close> is a sequence of Unicode code points; it is modelled as a list
  of natural numbers. The one-character strings the lexer handles (\<open>self._c\<close>) are
  lists of length one, and the empty string returned by \<open>read(1)\<close> at the end of
  the stream is the empty list.
\<close>

type_synonym pystr = "nat list"

definition ascii :: "string \<Rightarrow> pystr" where
  "ascii s = map of_char s"

abbreviation DQUOTE :: pystr where "DQUOTE \<equiv> [34]"
abbreviation BACKSLASH :: pystr where "BACKSLASH \<equiv> [92]"
abbreviation LF :: pystr where "LF \<equiv> [10]"
abbreviation CR :: pystr where "CR \<equiv> [13]"
abbreviation TAB :: pystr where "TAB \<equiv> [9]"
abbreviation BS :: pystr where "BS \<equiv> [8]"
abbreviation FF :: pystr where "FF \<equiv> [12]"

text \<open>
  \<open>str.isdigit()\<close>, \<open>int()\<close> and \<open>float()\<close> consult the Unicode database of the
  interpreter. On ASCII their behaviour is fixed and written out below; beyond ASCII
  the database is a parameter of the model: \<open>db_decimal\<close> gives the digit value of
  the code points of category Nd (decimal digits, which \<open>int()\<close> accepts), and
  \<open>db_digit\<close> holds for the further code points with \<open>Numeric_Type=Digit\<close>
  (superscripts and the like: \<open>isdigit()\<close> is true for them, \<open>int()\<close> rejects them).
\<close>

record unicode_db =
  db_decimal :: "nat \<Rightarrow> nat option"
  db_digit :: "nat \<Rightarrow> bool"

definition decimal_value :: "unicode_db \<Rightarrow> nat \<Rightarrow> nat option" where
  "decimal_value U x =
     (if x < 128 then (if 48 \<le> x \<and> x \<le> 57 then Some (x - 48) else None)
      else map_option (\<lambda>d. d mod 10) (db_decimal U x))"

definition isdigit_cp :: "unicode_db \<Rightarrow> nat \<Rightarrow> bool" where
  "isdigit_cp U x =
     (case decimal_value U x of Some d \<Rightarrow> True | None \<Rightarrow> 128 \<le> x \<and> db_digit U x)"

definition isdigit :: "unicode_db \<Rightarrow> pystr \<Rightarrow> bool" where
  \<comment> \<open>\<open>str.isdigit()\<close>: every character is a digit and there is at least one\<close>
  "isdigit U s = (s \<noteq> [] \<and> list_all (isdigit_cp U) s)"

text \<open>
  An excerpt of the Unicode database, for evaluating concrete inputs: the Arabic-Indic
  digits U+0660..U+0669 are decimal digits, the superscripts U+00B2, U+00B3 and U+00B9
  are digits that are not decimal.
\<close>

definition ucd_excerpt :: unicode_db where
  "ucd_excerpt =
     \<lparr>db_decimal = (\<lambda>x. if 1632 \<le> x \<and> x \<le> 1641 then Some (x - 1632) else None),
      db_digit = (\<lambda>x. x = 178 \<or> x = 179 \<or> x = 185)\<rparr>"

section \<open>Tokens, positions, messages and errors\<close>

datatype Token =
    UNKNOWN | BEGIN_ARRAY | BEGIN_OBJECT | END_ARRAY | END_OBJECT
  | LITERAL_FALSE | LITERAL_NULL | LITERAL_TRUE | NAME_SEPARATOR
  | NUMBER_DECIMAL | NUMBER_FLOAT | NUMBER_INT | STRING | VALUE_SEPARATOR

datatype LiteralTokenKind = LT_UNKNOWN | LT_FALSE | LT_NULL | LT_TRUE

datatype NumericTokenKind = NT_UNKNOWN | NT_INTEGER | NT_DECIMAL | NT_FLOAT

text \<open>
  \<open>TextPos\<close>: \<open>line\<close> and \<open>col\<close> are Python integers that are only ever incremented
  or reset to 0, so they are natural numbers here. Positions are copied into lexemes
  (\<open>make_copy\<close>) and errors are raised last, so a position is a plain value.
\<close>

record TextPos =
  line :: nat
  col :: nat

definition newline :: "TextPos \<Rightarrow> TextPos" where
  "newline p = p\<lparr>line := line p + 1, col := 0\<rparr>"

datatype JSONParserMessage =
    ERR_INVALID_LITERAL_FMT | ERR_INVALID_NUMBER | ERR_UNALLOWED_CHAR_FMT
  | ERR_UNALLOWED_ESCAPE_SEQ | ERR_UNCLOSED_STRING | ERR_UNEXPECTED_CHAR_FMT
  | ERR_UNRECOGNIZED_ESCAPE_SEQ_FMT
  | ERR_EXPECTED_ARRAY | ERR_EXPECTED_ARRAY_ITEM | ERR_EXPECTED_EOF | ERR_EXPECTED_LITERAL
  | ERR_EXPECTED_MEMBER_NAME | ERR_EXPECTED_NAME_SEPARATOR | ERR_EXPECTED_NUMBER
  | ERR_EXPECTED_OBJECT | ERR_EXPECTED_STRING | ERR_EXPECTED_VALUE
  | ERR_EXPECTED_VALUE_BUT_FOUND_FMT | ERR_MEMBER_NAME_DUPLICATE_FMT
  | ERR_MEMBER_NAME_IS_EMPTY | ERR_PARENT_IS_NOT_CONTAINER | ERR_UNCLOSED_ARRAY
  | ERR_UNCLOSED_OBJECT | ERR_UNEXPECTED_LEXEME_FMT | ERR_UNEXPECTED_TEXT_END
  | ERR_UNSUPPORTED_DOM_VALUE_TYPE_FMT

text \<open>
  The exceptions that can leave the module. \<open>JSONParserError\<close> carries the position,
  the message id and the arguments its message is formatted from (an argument is a
  string, or \<open>None\<close> when \<open>_curr_text()\<close> finds no current lexeme). \<open>JSONError\<close> is
  the base class, raised by the basic handler. \<open>ValueError\<close> is what \<open>int()\<close> and
  \<open>float()\<close> raise on a text they cannot convert, \<open>IndexError\<close> what \<open>list.pop\<close>
  raises on an empty list, \<open>TypeError\<close> what a dictionary raises on a key that
  cannot be hashed.
\<close>

datatype exn =
    JSONParserError TextPos JSONParserMessage "pystr option list"
  | JSONError
  | ValueError
  | IndexError
  | TypeError

record Lexeme =
  lexeme_pos :: TextPos
  lexeme_token :: Token
  lexeme_text :: pystr
  literal_kind :: LiteralTokenKind
  numeric_kind :: NumericTokenKind

definition mk_lexeme :: "TextPos \<Rightarrow> Token \<Rightarrow> pystr \<Rightarrow> Lexeme" where
  \<comment> \<open>\<open>Lexeme(pos, tok, text)\<close> with the default kinds\<close>
  "mk_lexeme p tok txt =
     \<lparr>lexeme_pos = p, lexeme_token = tok, lexeme_text = txt,
      literal_kind = LT_UNKNOWN, numeric_kind = NT_UNKNOWN\<rparr>"

section \<open>The numeric state machine\<close>

record NumericParser =
  np_char_count :: nat
  np_digit_count :: nat
  np_type :: NumericTokenKind
  np_accepting_type :: NumericTokenKind
  np_value :: pystr

definition NumericParser_init :: NumericParser where
  "NumericParser_init =
     \<lparr>np_char_count = 0, np_digit_count = 0, np_type = NT_UNKNOWN,
      np_accepting_type = NT_INTEGER, np_value = []\<rparr>"

definition accept :: "pystr \<Rightarrow> NumericParser \<Rightarrow> NumericParser" where
  "accept c np = np\<lparr>np_char_count := np_char_count np + 1, np_value := np_value np @ c\<rparr>"

definition EXP_CHARS :: "pystr set" where
  "EXP_CHARS = {ascii ''e'', ascii ''E''}"

text \<open>
  \<open>read_char\<close> returns its result together with the updated machine. The first branch
  is the source's: when \<open>c\<close> is \<open>'-'\<close> and \<open>_char_count\<close> is not 0 nothing is accepted
  and control falls through to the final \<open>return True\<close>.
\<close>

definition read_char :: "unicode_db \<Rightarrow> pystr \<Rightarrow> NumericParser \<Rightarrow> bool \<times> NumericParser" where
  "read_char U c np =
     (if c = ascii ''-'' then
        (if np_char_count np = 0 then (True, accept c np) else (True, np))
      else if c = ascii ''+'' then
        (if np_accepting_type np = NT_FLOAT \<and> np_char_count np = 0
         then (True, accept c np) else (False, np))
      else if c = ascii ''.'' then
        (if np_accepting_type np = NT_INTEGER \<and> np_digit_count np > 0
         then (True, (accept c np)\<lparr>np_accepting_type := NT_DECIMAL, np_type := NT_UNKNOWN\<rparr>)
         else (False, np))
      else if isdigit U c then
        (if np_accepting_type np = NT_INTEGER \<and> np_digit_count np = 1
            \<and> np_value np = ascii ''0''
         then (False, np\<lparr>np_type := NT_UNKNOWN\<rparr>)
         else (True, (accept c np)\<lparr>np_digit_count := np_digit_count np + 1,
                                    np_type := np_accepting_type np\<rparr>))
      else if c \<in> EXP_CHARS then
        (if np_accepting_type np = NT_INTEGER \<or> np_accepting_type np = NT_DECIMAL
         then (True, (accept c np)\<lparr>np_char_count := 0, np_digit_count := 0,
                                    np_type := NT_UNKNOWN, np_accepting_type := NT_FLOAT\<rparr>)
         else (False, np\<lparr>np_type := NT_UNKNOWN\<rparr>))
      else (False, np))"

section \<open>The lexer\<close>

text \<open>
  The lexer's fields. \<open>lx_reader\<close> is the text the stream has not delivered yet:
  \<open>read(1)\<close> takes its first character, or returns the empty string when none is left.
\<close>

record Lexer =
  lx_reader :: pystr
  lx_eof :: bool
  lx_initial :: bool
  lx_c :: pystr
  lx_c_accepted :: bool
  lx_pos :: TextPos

definition Lexer_init :: "pystr \<Rightarrow> Lexer" where
  "Lexer_init input =
     \<lparr>lx_reader = input, lx_eof = False, lx_initial = True, lx_c = [],
      lx_c_accepted = False, lx_pos = \<lparr>line = 1, col = 0\<rparr>\<rparr>"

definition DEC_DIGITS :: "pystr set" where
  "DEC_DIGITS = {ascii ''0'', ascii ''1'', ascii ''2'', ascii ''3'', ascii ''4'',
                 ascii ''5'', ascii ''6'', ascii ''7'', ascii ''8'', ascii ''9''}"

definition DEC_DIGITS_S :: "pystr set" where
  "DEC_DIGITS_S = DEC_DIGITS \<union> {ascii ''-'', ascii ''+''}"

definition HEX_DIGITS :: "pystr set" where
  "HEX_DIGITS = {ascii ''a'', ascii ''A'', ascii ''b'', ascii ''B'', ascii ''c'', ascii ''C'',
                 ascii ''d'', ascii ''D'', ascii ''e'', ascii ''E'', ascii ''f'', ascii ''F''}"

definition WHITESPACES :: "pystr set" where
  "WHITESPACES = {ascii '' '', TAB, CR, LF}"

definition LITERAL_PREFIXES :: "pystr set" where
  "LITERAL_PREFIXES = {ascii ''f'', ascii ''n'', ascii ''t''}"

definition STRUCTURALS :: "pystr \<Rightarrow> Token option" where
  "STRUCTURALS =
     map_of [(ascii ''['', BEGIN_ARRAY), (ascii ''{'', BEGIN_OBJECT),
             (ascii '']'', END_ARRAY), (ascii ''}'', END_OBJECT),
             (ascii '':'', NAME_SEPARATOR), (ascii '','', VALUE_SEPARATOR)]"

definition ESCAPE_CHARS :: "pystr \<Rightarrow> pystr option" where
  "ESCAPE_CHARS =
     map_of [(DQUOTE, DQUOTE), (BACKSLASH, BACKSLASH), (ascii ''/'', ascii ''/''),
             (ascii ''b'', BS), (ascii ''f'', FF), (ascii ''n'', LF),
             (ascii ''r'', CR), (ascii ''t'', TAB)]"

definition is_hex_digit :: "unicode_db \<Rightarrow> pystr \<Rightarrow> bool" where
  "is_hex_digit U c = (isdigit U c \<or> c \<in> HEX_DIGITS)"

definition is_structural :: "pystr \<Rightarrow> bool" where
  "is_structural c = (STRUCTURALS c \<noteq> None)"

definition is_whitespace :: "pystr \<Rightarrow> bool" where
  "is_whitespace c = (c \<in> WHITESPACES)"

definition next_char :: "Lexer \<Rightarrow> bool \<times> Lexer" where
  "next_char s =
     (let is_new_line = (lx_c s = LF);
          ch = take 1 (lx_reader s);
          s1 = s\<lparr>lx_reader := drop 1 (lx_reader s), lx_c := ch, lx_eof := (ch = [])\<rparr>
      in if \<not> lx_eof s1 then
           (let p = (if is_new_line then newline (lx_pos s1) else lx_pos s1)
            in (True, s1\<lparr>lx_c_accepted := False, lx_pos := p\<lparr>col := col p + 1\<rparr>\<rparr>))
         else (False, s1))"

lemma next_char_reader:
  "next_char s = (True, s1) \<Longrightarrow> length (lx_reader s1) < length (lx_reader s)"
  by (cases "lx_reader s") (auto simp: next_char_def Let_def split: if_splits)

lemma next_char_reader_sym:
  "(True, s1) = next_char s \<Longrightarrow> length (lx_reader s1) < length (lx_reader s)"
  using next_char_reader[of s s1] by simp

lemma next_char_reader_le:
  "next_char s = (ok, s1) \<Longrightarrow> length (lx_reader s1) \<le> length (lx_reader s)"
  by (auto simp: next_char_def Let_def split: if_splits)

text \<open>
  \<open>int(value, base = 16)\<close> on the characters \<open>handle_escaped_char\<close> collected: a
  decimal digit of any script counts with its value, the letters a to f with 10 to 15,
  and any other character makes \<open>int\<close> raise \<open>ValueError\<close> (the result \<open>None\<close> here).
\<close>

definition hex_value :: "unicode_db \<Rightarrow> nat \<Rightarrow> nat option" where
  "hex_value U x =
     (if 97 \<le> x \<and> x \<le> 102 then Some (x - 87)
      else if 65 \<le> x \<and> x \<le> 70 then Some (x - 55)
      else decimal_value U x)"

fun int_base16 :: "unicode_db \<Rightarrow> nat \<Rightarrow> pystr \<Rightarrow> nat option" where
  "int_base16 U acc [] = Some acc"
| "int_base16 U acc (x # xs) =
     (case hex_value U x of None \<Rightarrow> None | Some d \<Rightarrow> int_base16 U (16 * acc + d) xs)"

text \<open>
  \<open>handle_escaped_char\<close>: the loop \<open>for _i in range(0, 4)\<close> is \<open>escaped_loop\<close>, counting
  the iterations left. \<open>chr(code)\<close> is the one-character string of that code point.
\<close>

fun escaped_loop :: "unicode_db \<Rightarrow> TextPos \<Rightarrow> nat \<Rightarrow> pystr \<Rightarrow> Lexer \<Rightarrow> exn + (pystr \<times> Lexer)" where
  "escaped_loop U start 0 val s = Inr (val, s)"
| "escaped_loop U start (Suc i) val s =
     (let (ok, s1) = next_char s
      in if \<not> (ok \<and> is_hex_digit U (lx_c s1))
         then Inl (JSONParserError start ERR_UNALLOWED_ESCAPE_SEQ [])
         else escaped_loop U start i (val @ lx_c s1) (s1\<lparr>lx_c_accepted := True\<rparr>))"

definition handle_escaped_char :: "unicode_db \<Rightarrow> TextPos \<Rightarrow> Lexer \<Rightarrow> exn + (pystr \<times> Lexer)" where
  "handle_escaped_char U start s =
     (case escaped_loop U start 4 [] s of
        Inl e \<Rightarrow> Inl e
      | Inr (val, s') \<Rightarrow>
          (case int_base16 U 0 val of
             None \<Rightarrow> Inl ValueError
           | Some code \<Rightarrow> Inr ([code], s')))"

lemma escaped_loop_reader:
  "escaped_loop U start i val s = Inr (v, s') \<Longrightarrow> length (lx_reader s') \<le> length (lx_reader s)"
proof (induction i arbitrary: val s)
  case 0
  then show ?case by simp
next
  case (Suc i)
  obtain ok s1 where nc: "next_char s = (ok, s1)" by (cases "next_char s")
  with Suc.prems have "escaped_loop U start i (val @ lx_c s1) (s1\<lparr>lx_c_accepted := True\<rparr>) = Inr (v, s')"
    by (simp split: if_splits)
  from Suc.IH[OF this] next_char_reader_le[OF nc] show ?case by simp
qed

lemma handle_escaped_char_reader:
  "handle_escaped_char U start s = Inr (v, s') \<Longrightarrow> length (lx_reader s') \<le> length (lx_reader s)"
  by (auto simp: handle_escaped_char_def split: sum.splits option.splits dest: escaped_loop_reader)

text \<open>\<open>handle_literal\<close>: the \<open>while self.next_char()\<close> loop, then the comparison.\<close>

function literal_loop :: "pystr \<Rightarrow> Lexer \<Rightarrow> pystr \<times> Lexer" where
  "literal_loop val s =
     (let (ok, s1) = next_char s
      in if \<not> ok then (val, s1)
         else if is_whitespace (lx_c s1) \<or> is_structural (lx_c s1) then (val, s1)
         else literal_loop (val @ lx_c s1) (s1\<lparr>lx_c_accepted := True\<rparr>))"
  by pat_completeness auto
termination
  by (relation "measure (\<lambda>(val, s). length (lx_reader s))") (auto dest: next_char_reader_sym)

definition handle_literal :: "Lexer \<Rightarrow> exn + (Lexeme option \<times> Lexer)" where
  "handle_literal s =
     (let p = lx_pos s;
          (val, s') = literal_loop (lx_c s) (s\<lparr>lx_c_accepted := True\<rparr>)
      in if val = ascii ''false'' then
           Inr (Some ((mk_lexeme p LITERAL_FALSE val)\<lparr>literal_kind := LT_FALSE\<rparr>), s')
         else if val = ascii ''null'' then
           Inr (Some ((mk_lexeme p LITERAL_NULL val)\<lparr>literal_kind := LT_NULL\<rparr>), s')
         else if val = ascii ''true'' then
           Inr (Some ((mk_lexeme p LITERAL_TRUE val)\<lparr>literal_kind := LT_TRUE\<rparr>), s')
         else Inl (JSONParserError p ERR_INVALID_LITERAL_FMT [Some val]))"

text \<open>
  \<open>handle_number\<close>: the loop \<open>while accepting\<close> feeds the current character to the
  machine; \<open>number_loop\<close> returns the machine and the lexer as the loop leaves them.
\<close>

function number_loop :: "unicode_db \<Rightarrow> NumericParser \<Rightarrow> Lexer \<Rightarrow> NumericParser \<times> Lexer" where
  "number_loop U np s =
     (let (r, np1) = read_char U (lx_c s) np
      in if r then
           (let (accepting, s1) = next_char (s\<lparr>lx_c_accepted := True\<rparr>)
            in if accepting then number_loop U np1 s1 else (np1, s1))
         else (np1, s))"
  by pat_completeness auto
termination
  by (relation "measure (\<lambda>(U, np, s). length (lx_reader s))") (auto dest: next_char_reader_sym)

definition handle_number :: "unicode_db \<Rightarrow> Lexer \<Rightarrow> exn + (Lexeme option \<times> Lexer)" where
  "handle_number U s =
     (let p = lx_pos s;
          (np, s') = number_loop U NumericParser_init s
      in if np_type np = NT_UNKNOWN then
           Inl (JSONParserError (lx_pos s') ERR_INVALID_NUMBER [])
         else
           (let tok = (if np_type np = NT_DECIMAL then NUMBER_DECIMAL
                       else if np_type np = NT_FLOAT then NUMBER_FLOAT else NUMBER_INT)
            in if lx_c_accepted s' \<or> is_whitespace (lx_c s') \<or> is_structural (lx_c s')
               then Inr (Some ((mk_lexeme p tok (np_value np))\<lparr>numeric_kind := np_type np\<rparr>), s')
               else Inl (JSONParserError (lx_pos s') ERR_INVALID_NUMBER [])))"

text \<open>\<open>handle_string\<close>: the \<open>while self.next_char()\<close> loop with its three branches.\<close>

function string_loop :: "unicode_db \<Rightarrow> TextPos \<Rightarrow> pystr \<Rightarrow> Lexer \<Rightarrow> exn + (Lexeme option \<times> Lexer)" where
  "string_loop U start_pos val s =
     (let (ok, s1) = next_char s
      in if \<not> ok then Inl (JSONParserError (lx_pos s1) ERR_UNCLOSED_STRING [])
         else if lx_c s1 = DQUOTE then
           Inr (Some (mk_lexeme start_pos STRING val), s1\<lparr>lx_c_accepted := True\<rparr>)
         else if lx_c s1 = BACKSLASH then
           (let p = lx_pos s1;
                (ok2, s2) = next_char s1
            in if \<not> ok2 then Inl (JSONParserError p ERR_UNCLOSED_STRING [])
               else (case ESCAPE_CHARS (lx_c s2) of
                       Some esc_char \<Rightarrow>
                         string_loop U start_pos (val @ esc_char) (s2\<lparr>lx_c_accepted := True\<rparr>)
                     | None \<Rightarrow>
                         if lx_c s2 = ascii ''u'' then
                           (case handle_escaped_char U p s2 of
                              Inl e \<Rightarrow> Inl e
                            | Inr (ch, s3) \<Rightarrow> string_loop U start_pos (val @ ch) s3)
                         else Inl (JSONParserError p ERR_UNRECOGNIZED_ESCAPE_SEQ_FMT
                                     [Some (BACKSLASH @ lx_c s2)])))
         else string_loop U start_pos (val @ lx_c s1) (s1\<lparr>lx_c_accepted := True\<rparr>))"
  by pat_completeness auto
termination
  by (relation "measure (\<lambda>(U, start_pos, val, s). length (lx_reader s))")
     (auto dest!: next_char_reader_sym handle_escaped_char_reader)

definition handle_string :: "unicode_db \<Rightarrow> Lexer \<Rightarrow> exn + (Lexeme option \<times> Lexer)" where
  "handle_string U s = string_loop U (lx_pos s) [] s"

function skip_whitespaces :: "Lexer \<Rightarrow> Lexer" where
  "skip_whitespaces s =
     (if is_whitespace (lx_c s)
      then skip_whitespaces (snd (next_char (s\<lparr>lx_c_accepted := True\<rparr>)))
      else s)"
  by pat_completeness auto
termination
  by (relation "measure (\<lambda>s. length (lx_reader s) + (if is_whitespace (lx_c s) then 1 else 0))")
     (auto simp: next_char_def Let_def is_whitespace_def WHITESPACES_def ascii_def
           split: if_splits list.splits)

text \<open>
  \<open>Lexer.next_lexeme\<close> returns a lexeme, or \<open>None\<close> at the end of the stream, or raises.
\<close>

definition next_lexeme :: "unicode_db \<Rightarrow> Lexer \<Rightarrow> exn + (Lexeme option \<times> Lexer)" where
  "next_lexeme U s0 =
     (let (ok, s1) = (if lx_c_accepted s0 \<or> lx_initial s0 then next_char s0 else (True, s0))
      in if \<not> ok then Inr (None, s1)
         else
           (let s2 = skip_whitespaces (s1\<lparr>lx_initial := False\<rparr>)
            in if \<not> lx_c_accepted s2 then
                 (let c = lx_c s2; p = lx_pos s2
                  in if c = DQUOTE then handle_string U s2
                     else if c \<in> DEC_DIGITS_S then handle_number U s2
                     else (case STRUCTURALS c of
                             Some tok \<Rightarrow>
                               Inr (Some (mk_lexeme p tok c), s2\<lparr>lx_c_accepted := True\<rparr>)
                           | None \<Rightarrow>
                               if c \<in> LITERAL_PREFIXES then handle_literal s2
                               else Inl (JSONParserError p ERR_UNEXPECTED_CHAR_FMT [Some c])))
               else if lx_eof s2 then Inr (None, s2)
               else Inl (JSONParserError (lx_pos s2) ERR_UNEXPECTED_CHAR_FMT [Some (lx_c s2)])))"

section \<open>The handler interface\<close>

text \<open>
  The parser never reads anything back from its handler: it only calls it. A call of
  a handler method is therefore modelled as an event appended to the parser's log,
  in the order of the calls; a handler is run by feeding it the log (see \<open>feed\<close>
  below). One constructor per method of \<open>SAXHandlerIntf\<close>.
\<close>

datatype event =
    On_literal LiteralTokenKind pystr
  | On_number NumericTokenKind pystr
  | On_string pystr
  | On_begin_object
  | On_member_name pystr
  | On_end_object nat
  | On_begin_array
  | On_end_array nat
  | Textpos_changed TextPos

section \<open>The parser\<close>

record SAXParser =
  sp_lexer :: Lexer
  sp_curr :: "Lexeme option"
  sp_events :: "event list"

definition SAXParser_init :: "pystr \<Rightarrow> SAXParser" where
  "SAXParser_init input =
     \<lparr>sp_lexer = Lexer_init input,
      sp_curr = Some (mk_lexeme \<lparr>line = 1, col = 0\<rparr> UNKNOWN []),
      sp_events = []\<rparr>"

text \<open>
  The result of a parser method: it returns, it raises, or the model's fuel ran out
  (the recursion of the source is bounded by a counter here).
\<close>

datatype 'a outcome = Done 'a | Raise exn | Timeout

definition then_do ::
  "(SAXParser \<Rightarrow> 'a outcome \<times> SAXParser) \<Rightarrow> ('a \<Rightarrow> SAXParser \<Rightarrow> 'b outcome \<times> SAXParser)
     \<Rightarrow> SAXParser \<Rightarrow> 'b outcome \<times> SAXParser" where
  "then_do m f ps =
     (case m ps of
        (Done a, ps1) \<Rightarrow> f a ps1
      | (Raise e, ps1) \<Rightarrow> (Raise e, ps1)
      | (Timeout, ps1) \<Rightarrow> (Timeout, ps1))"

definition emit :: "event \<Rightarrow> SAXParser \<Rightarrow> SAXParser" where
  "emit e ps = ps\<lparr>sp_events := sp_events ps @ [e]\<rparr>"

definition curr_token :: "SAXParser \<Rightarrow> Token" where
  "curr_token ps = (case sp_curr ps of None \<Rightarrow> UNKNOWN | Some lx \<Rightarrow> lexeme_token lx)"

definition curr_token_is :: "SAXParser \<Rightarrow> Token \<Rightarrow> bool" where
  "curr_token_is ps tok = (curr_token ps = tok)"

definition curr_token_in :: "SAXParser \<Rightarrow> Token list \<Rightarrow> bool" where
  "curr_token_in ps toks = list_ex (curr_token_is ps) toks"

definition curr_text :: "SAXParser \<Rightarrow> pystr option" where
  "curr_text ps = (case sp_curr ps of None \<Rightarrow> None | Some lx \<Rightarrow> Some (lexeme_text lx))"

definition curr_pos :: "SAXParser \<Rightarrow> TextPos" where
  "curr_pos ps = lx_pos (sp_lexer ps)"

definition sax_eof :: "SAXParser \<Rightarrow> bool" where
  \<comment> \<open>\<open>SAXParser.eof\<close>\<close>
  "sax_eof ps = lx_eof (sp_lexer ps)"

definition sax_next_lexeme :: "unicode_db \<Rightarrow> SAXParser \<Rightarrow> bool outcome \<times> SAXParser" where
  \<comment> \<open>\<open>SAXParser.next_lexeme\<close>\<close>
  "sax_next_lexeme U ps =
     (case next_lexeme U (sp_lexer ps) of
        Inl e \<Rightarrow> (Raise e, ps)
      | Inr (lx, l') \<Rightarrow>
          (let ps1 = ps\<lparr>sp_lexer := l', sp_curr := lx\<rparr>
           in if lx \<noteq> None then (Done True, emit (Textpos_changed (curr_pos ps1)) ps1)
              else (Done False, ps1)))"

definition is_literal_token :: "Token \<Rightarrow> bool" where
  "is_literal_token tok = (tok \<in> set [LITERAL_FALSE, LITERAL_NULL, LITERAL_TRUE])"

definition parse_literal :: "SAXParser \<Rightarrow> unit outcome \<times> SAXParser" where
  "parse_literal ps =
     (case sp_curr ps of
        Some lx \<Rightarrow>
          if is_literal_token (lexeme_token lx)
          then (Done (), emit (On_literal (literal_kind lx) (lexeme_text lx)) ps)
          else (Raise (JSONParserError (curr_pos ps) ERR_EXPECTED_LITERAL []), ps)
      | None \<Rightarrow> (Raise (JSONParserError (curr_pos ps) ERR_EXPECTED_LITERAL []), ps))"

definition parse_number :: "SAXParser \<Rightarrow> unit outcome \<times> SAXParser" where
  "parse_number ps =
     (case sp_curr ps of
        Some lx \<Rightarrow>
          if curr_token_in ps [NUMBER_DECIMAL, NUMBER_FLOAT]
          then (Done (), emit (On_number NT_FLOAT (lexeme_text lx)) ps)
          else if curr_token_is ps NUMBER_INT
          then (Done (), emit (On_number NT_INTEGER (lexeme_text lx)) ps)
          else (Raise (JSONParserError (curr_pos ps) ERR_EXPECTED_NUMBER []), ps)
      | None \<Rightarrow> (Raise (JSONParserError (curr_pos ps) ERR_EXPECTED_NUMBER []), ps))"

definition parse_string :: "SAXParser \<Rightarrow> unit outcome \<times> SAXParser" where
  "parse_string ps =
     (case sp_curr ps of
        Some lx \<Rightarrow>
          if curr_token_is ps STRING
          then (Done (), emit (On_string (lexeme_text lx)) ps)
          else (Raise (JSONParserError (curr_pos ps) ERR_EXPECTED_STRING []), ps)
      | None \<Rightarrow> (Raise (JSONParserError (curr_pos ps) ERR_EXPECTED_STRING []), ps))"

text \<open>
  The recursive descent. Each method's body is written once, as a definition that
  takes the methods it calls as arguments (\<open>p_array\<close> for \<open>self.parse_array\<close>, and
  so on); the recursion is tied below, where every call and every loop iteration takes
  one unit of fuel and a call without fuel is \<open>Timeout\<close>. The loops
  \<open>while is_next_item\<close> and \<open>while is_next_member\<close> are the recursion of
  \<open>parse_array_items\<close> and \<open>parse_object_members\<close> on themselves, the loop's counter
  being an argument: the source's call is the one with counter 0.
\<close>

definition parse_value_body ::
  "(SAXParser \<Rightarrow> unit outcome \<times> SAXParser) \<Rightarrow> (SAXParser \<Rightarrow> unit outcome \<times> SAXParser)
     \<Rightarrow> SAXParser \<Rightarrow> unit outcome \<times> SAXParser" where
  "parse_value_body p_array p_object ps =
     (if curr_token_is ps BEGIN_ARRAY then p_array ps
      else if curr_token_is ps BEGIN_OBJECT then p_object ps
      else if curr_token_in ps [LITERAL_FALSE, LITERAL_NULL, LITERAL_TRUE] then parse_literal ps
      else if curr_token_in ps [NUMBER_DECIMAL, NUMBER_FLOAT, NUMBER_INT] then parse_number ps
      else if curr_token_is ps STRING then parse_string ps
      else (Raise (JSONParserError (curr_pos ps) ERR_EXPECTED_VALUE_BUT_FOUND_FMT [curr_text ps]),
            ps))"

definition parse_array_body ::
  "unicode_db \<Rightarrow> (nat \<Rightarrow> SAXParser \<Rightarrow> nat outcome \<times> SAXParser)
     \<Rightarrow> SAXParser \<Rightarrow> unit outcome \<times> SAXParser" where
  "parse_array_body U p_array_items ps =
     (if \<not> curr_token_is ps BEGIN_ARRAY
      then (Raise (JSONParserError (curr_pos ps) ERR_EXPECTED_ARRAY []), ps)
      else
        then_do (sax_next_lexeme U)
          (\<lambda>ok ps1.
             then_do
               (\<lambda>ps1. if ok \<and> \<not> curr_token_is ps1 END_ARRAY
                       then p_array_items 0 ps1 else (Done 0, ps1))
               (\<lambda>element_count ps2.
                  if curr_token_is ps2 END_ARRAY
                  then (Done (), emit (On_end_array element_count) ps2)
                  else (Raise (JSONParserError (curr_pos ps2) ERR_UNCLOSED_ARRAY []), ps2))
               ps1)
          (emit On_begin_array ps))"

definition parse_array_items_body ::
  "unicode_db \<Rightarrow> (SAXParser \<Rightarrow> unit outcome \<times> SAXParser)
     \<Rightarrow> (nat \<Rightarrow> SAXParser \<Rightarrow> nat outcome \<times> SAXParser)
     \<Rightarrow> nat \<Rightarrow> SAXParser \<Rightarrow> nat outcome \<times> SAXParser" where
  "parse_array_items_body U p_value next_iteration element_count ps =
     then_do p_value
       (\<lambda>_. then_do (sax_next_lexeme U)
          (\<lambda>ok ps1.
             if ok \<and> curr_token_is ps1 VALUE_SEPARATOR
             then then_do (sax_next_lexeme U)
                    (\<lambda>ok2 ps2.
                       if \<not> ok2
                       then (Raise (JSONParserError (curr_pos ps2) ERR_EXPECTED_ARRAY_ITEM []), ps2)
                       else next_iteration (element_count + 1) ps2)
                    ps1
             else (Done (element_count + 1), ps1)))
       ps"

definition parse_object_body ::
  "unicode_db \<Rightarrow> (nat \<Rightarrow> SAXParser \<Rightarrow> nat outcome \<times> SAXParser)
     \<Rightarrow> SAXParser \<Rightarrow> unit outcome \<times> SAXParser" where
  "parse_object_body U p_object_members ps =
     (if \<not> curr_token_is ps BEGIN_OBJECT
      then (Raise (JSONParserError (curr_pos ps) ERR_EXPECTED_OBJECT []), ps)
      else
        (let start_pos = curr_pos ps
         in then_do (sax_next_lexeme U)
              (\<lambda>ok ps1.
                 then_do
                   (\<lambda>ps1. if ok \<and> \<not> curr_token_is ps1 END_OBJECT
                           then p_object_members 0 ps1 else (Done 0, ps1))
                   (\<lambda>member_count ps2.
                      if curr_token_is ps2 END_OBJECT
                      then (Done (), emit (On_end_object member_count) ps2)
                      else (Raise (JSONParserError start_pos ERR_UNCLOSED_OBJECT []), ps2))
                   ps1)
              (emit On_begin_object ps)))"

definition parse_object_members_body ::
  "unicode_db \<Rightarrow> (SAXParser \<Rightarrow> unit outcome \<times> SAXParser)
     \<Rightarrow> (nat \<Rightarrow> SAXParser \<Rightarrow> nat outcome \<times> SAXParser)
     \<Rightarrow> nat \<Rightarrow> SAXParser \<Rightarrow> nat outcome \<times> SAXParser" where
  "parse_object_members_body U p_value next_iteration member_count ps =
     (if \<not> curr_token_is ps STRING
      then (Raise (JSONParserError (curr_pos ps) ERR_EXPECTED_MEMBER_NAME []), ps)
      else
        then_do (sax_next_lexeme U)
          (\<lambda>ok ps1.
             if \<not> ok \<or> \<not> curr_token_is ps1 NAME_SEPARATOR
             then (Raise (JSONParserError (curr_pos ps1) ERR_EXPECTED_NAME_SEPARATOR []), ps1)
             else
               then_do (sax_next_lexeme U)
                 (\<lambda>ok2 ps2.
                    if \<not> ok2
                    then (Raise (JSONParserError (curr_pos ps2) ERR_EXPECTED_VALUE []), ps2)
                    else
                      then_do p_value
                        (\<lambda>_. then_do (sax_next_lexeme U)
                           (\<lambda>ok3 ps3.
                              if ok3 \<and> curr_token_is ps3 VALUE_SEPARATOR
                              then then_do (sax_next_lexeme U)
                                     (\<lambda>ok4 ps4.
                                        if \<not> ok4
                                        then (Raise (JSONParserError (curr_pos ps4)
                                                       ERR_EXPECTED_MEMBER_NAME []), ps4)
                                        else next_iteration (member_count + 1) ps4)
                                     ps3
                              else (Done (member_count + 1), ps3)))
                        ps2)
                 ps1)
          (emit (On_member_name (case curr_text ps of Some t \<Rightarrow> t | None \<Rightarrow> [])) ps))"

fun parse_value :: "unicode_db \<Rightarrow> nat \<Rightarrow> SAXParser \<Rightarrow> unit outcome \<times> SAXParser"
  and parse_array :: "unicode_db \<Rightarrow> nat \<Rightarrow> SAXParser \<Rightarrow> unit outcome \<times> SAXParser"
  and parse_array_items :: "unicode_db \<Rightarrow> nat \<Rightarrow> nat \<Rightarrow> SAXParser \<Rightarrow> nat outcome \<times> SAXParser"
  and parse_object :: "unicode_db \<Rightarrow> nat \<Rightarrow> SAXParser \<Rightarrow> unit outcome \<times> SAXParser"
  and parse_object_members :: "unicode_db \<Rightarrow> nat \<Rightarrow> nat \<Rightarrow> SAXParser \<Rightarrow> nat outcome \<times> SAXParser"
where
  "parse_value U 0 ps = (Timeout, ps)"
| "parse_value U (Suc n) ps = parse_value_body (parse_array U n) (parse_object U n) ps"
| "parse_array U 0 ps = (Timeout, ps)"
| "parse_array U (Suc n) ps = parse_array_body U (parse_array_items U n) ps"
| "parse_array_items U 0 element_count ps = (Timeout, ps)"
| "parse_array_items U (Suc n) element_count ps =
     parse_array_items_body U (parse_value U n) (parse_array_items U n) element_count ps"
| "parse_object U 0 ps = (Timeout, ps)"
| "parse_object U (Suc n) ps = parse_object_body U (parse_object_members U n) ps"
| "parse_object_members U 0 member_count ps = (Timeout, ps)"
| "parse_object_members U (Suc n) member_count ps =
     parse_object_members_body U (parse_value U n) (parse_object_members U n) member_count ps"

text \<open>
  \<open>parse_doc\<close>. Its last six lines (the check for the end of the document after the
  top-level value) are \<open>parse_doc_tail\<close>. \<open>run\<close> starts a fresh parser on the input.
\<close>

definition parse_doc_tail :: "unicode_db \<Rightarrow> SAXParser \<Rightarrow> unit outcome \<times> SAXParser" where
  "parse_doc_tail U =
     then_do (sax_next_lexeme U)
       (\<lambda>_ ps1.
          if \<not> sax_eof ps1 then
            then_do (sax_next_lexeme U)
              (\<lambda>ok ps2.
                 if ok
                 then (Raise (JSONParserError (curr_pos ps2) ERR_UNEXPECTED_LEXEME_FMT
                                [curr_text ps2]), ps2)
                 else (Raise (JSONParserError (curr_pos ps2) ERR_EXPECTED_EOF
                                [curr_text ps2]), ps2))
              ps1
          else (Done (), ps1))"

definition parse_doc :: "unicode_db \<Rightarrow> nat \<Rightarrow> SAXParser \<Rightarrow> unit outcome \<times> SAXParser" where
  "parse_doc U n =
     then_do (sax_next_lexeme U)
       (\<lambda>ok ps1.
          if ok then then_do (parse_value U n) (\<lambda>_. parse_doc_tail U) ps1
          else if sax_eof ps1 then (Done (), ps1)
          else parse_doc_tail U ps1)"

definition run :: "unicode_db \<Rightarrow> nat \<Rightarrow> pystr \<Rightarrow> unit outcome \<times> SAXParser" where
  "run U n input = parse_doc U n (SAXParser_init input)"

section \<open>The basic handler\<close>

text \<open>
  The values \<open>SAXHandlerBasic\<close> builds. A \<open>float\<close> is represented by the text it was
  converted from (floating-point arithmetic is not modelled: two floats built from the
  same text are the same float). A \<open>dict\<close> is a finite map, so that equality of
  dictionaries does not depend on the order of insertion, as in Python; its keys are
  the values that can be hashed. (Python identifies the keys \<open>1\<close>, \<open>1.0\<close> and \<open>True\<close>;
  this is not modelled, the parser only ever produces string keys.)
\<close>

datatype pykey = KNone | KBool bool | KInt int | KFloat pystr | KStr pystr

datatype pyval =
    PNone | PBool bool | PInt int | PFloat pystr | PStr pystr
  | PList "pyval list"
  | PDict "(pykey, pyval) fmap"

definition hash_key :: "pyval \<Rightarrow> exn + pykey" where
  "hash_key v =
     (case v of
        PNone \<Rightarrow> Inr KNone | PBool b \<Rightarrow> Inr (KBool b) | PInt i \<Rightarrow> Inr (KInt i)
      | PFloat t \<Rightarrow> Inr (KFloat t) | PStr t \<Rightarrow> Inr (KStr t)
      | PList xs \<Rightarrow> Inl TypeError | PDict d \<Rightarrow> Inl TypeError)"

text \<open>
  \<open>int(text)\<close> and \<open>float(text)\<close> on the texts of number tokens, which consist of
  signs, digits, \<open>'.'\<close>, \<open>'e'\<close> and \<open>'E'\<close> (the blanks and underscores \<open>int()\<close> and
  \<open>float()\<close> also tolerate cannot occur in them). \<open>int\<close> wants an optional sign and
  at least one decimal digit; \<open>float\<close> wants an optional sign, digits with an optional
  \<open>'.'\<close> among them (at least one digit in all), and an optional exponent of at
  least one digit.
\<close>

fun digits_value :: "unicode_db \<Rightarrow> nat \<Rightarrow> pystr \<Rightarrow> nat option" where
  "digits_value U acc [] = Some acc"
| "digits_value U acc (x # xs) =
     (case decimal_value U x of None \<Rightarrow> None | Some d \<Rightarrow> digits_value U (10 * acc + d) xs)"

definition strip_sign :: "pystr \<Rightarrow> bool \<times> pystr" where
  "strip_sign t =
     (case t of
        [] \<Rightarrow> (False, [])
      | x # r \<Rightarrow> if x = 45 then (True, r) else if x = 43 then (False, r) else (False, t))"

definition py_int :: "unicode_db \<Rightarrow> pystr \<Rightarrow> exn + int" where
  "py_int U t =
     (let (neg, ds) = strip_sign t
      in if ds = [] then Inl ValueError
         else (case digits_value U 0 ds of
                 None \<Rightarrow> Inl ValueError
               | Some v \<Rightarrow> Inr (if neg then - int v else int v)))"

definition is_decimal :: "unicode_db \<Rightarrow> nat \<Rightarrow> bool" where
  "is_decimal U x = (decimal_value U x \<noteq> None)"

definition float_syntax :: "unicode_db \<Rightarrow> pystr \<Rightarrow> bool" where
  "float_syntax U t =
     (let t1 = snd (strip_sign t);
          ip = takeWhile (is_decimal U) t1;
          r1 = dropWhile (is_decimal U) t1;
          (fp, r2) = (case r1 of
                        [] \<Rightarrow> ([], [])
                      | x # r \<Rightarrow> if x = 46 then (takeWhile (is_decimal U) r,
                                                 dropWhile (is_decimal U) r)
                                 else ([], r1))
      in (ip \<noteq> [] \<or> fp \<noteq> []) \<and>
         (case r2 of
            [] \<Rightarrow> True
          | x # r \<Rightarrow> (x = 101 \<or> x = 69) \<and>
                     (let ex = snd (strip_sign r) in ex \<noteq> [] \<and> list_all (is_decimal U) ex)))"

definition py_float :: "unicode_db \<Rightarrow> pystr \<Rightarrow> exn + pyval" where
  "py_float U t = (if float_syntax U t then Inr (PFloat t) else Inl ValueError)"

text \<open>
  \<open>SimpleStack\<close>: the list \<open>_data\<close>, whose last element is the top. The handler has
  no other state than its stack.
\<close>

type_synonym SimpleStack = "pyval list"

definition pop :: "SimpleStack \<Rightarrow> exn + (pyval \<times> SimpleStack)" where
  "pop st = (if st = [] then Inl IndexError else Inr (last st, butlast st))"

definition push :: "pyval \<Rightarrow> SimpleStack \<Rightarrow> SimpleStack" where
  "push item st = st @ [item]"

definition result :: "SimpleStack \<Rightarrow> exn + (pyval \<times> SimpleStack)" where
  \<comment> \<open>the property \<open>SAXHandlerBasic.result\<close>: the value read and the stack it leaves\<close>
  "result st =
     (if length st = 0 then Inr (PNone, st)
      else if length st = 1 then pop st
      else Inl JSONError)"

definition on_literal :: "LiteralTokenKind \<Rightarrow> pystr \<Rightarrow> SimpleStack \<Rightarrow> exn + SimpleStack" where
  "on_literal kind txt st =
     (if kind = LT_FALSE then Inr (push (PBool False) st)
      else if kind = LT_TRUE then Inr (push (PBool True) st)
      else if kind = LT_NULL then Inr (push PNone st)
      else Inl JSONError)"

definition on_number :: "unicode_db \<Rightarrow> NumericTokenKind \<Rightarrow> pystr \<Rightarrow> SimpleStack \<Rightarrow> exn + SimpleStack" where
  "on_number U kind txt st =
     (if kind = NT_INTEGER then
        (case py_int U txt of Inl e \<Rightarrow> Inl e | Inr i \<Rightarrow> Inr (push (PInt i) st))
      else if kind \<in> set [NT_DECIMAL, NT_FLOAT] then
        (case py_float U txt of Inl e \<Rightarrow> Inl e | Inr f \<Rightarrow> Inr (push f st))
      else Inl JSONError)"

definition on_string :: "pystr \<Rightarrow> SimpleStack \<Rightarrow> exn + SimpleStack" where
  "on_string txt st = Inr (push (PStr txt) st)"

definition on_member_name :: "pystr \<Rightarrow> SimpleStack \<Rightarrow> exn + SimpleStack" where
  "on_member_name txt st = Inr (push (PStr txt) st)"

fun end_object_loop ::
  "nat \<Rightarrow> (pykey, pyval) fmap \<Rightarrow> SimpleStack \<Rightarrow> exn + ((pykey, pyval) fmap \<times> SimpleStack)" where
  "end_object_loop 0 obj st = Inr (obj, st)"
| "end_object_loop (Suc i) obj st =
     (case pop st of
        Inl e \<Rightarrow> Inl e
      | Inr (val, st1) \<Rightarrow>
          (case pop st1 of
             Inl e \<Rightarrow> Inl e
           | Inr (name, st2) \<Rightarrow>
               (case hash_key name of
                  Inl e \<Rightarrow> Inl e
                | Inr k \<Rightarrow> end_object_loop i (fmupd k val obj) st2)))"

definition on_end_object :: "nat \<Rightarrow> SimpleStack \<Rightarrow> exn + SimpleStack" where
  "on_end_object member_count st =
     (let member_item_count = member_count * 2
      in if member_item_count > length st then Inl JSONError
         else (case end_object_loop member_count fmempty st of
                 Inl e \<Rightarrow> Inl e
               | Inr (obj, st') \<Rightarrow> Inr (push (PDict obj) st')))"

fun end_array_loop :: "nat \<Rightarrow> pyval list \<Rightarrow> SimpleStack \<Rightarrow> exn + (pyval list \<times> SimpleStack)" where
  "end_array_loop 0 array st = Inr (array, st)"
| "end_array_loop (Suc i) array st =
     (case pop st of
        Inl e \<Rightarrow> Inl e
      | Inr (item, st1) \<Rightarrow> end_array_loop i (item # array) st1)"

definition on_end_array :: "nat \<Rightarrow> SimpleStack \<Rightarrow> exn + SimpleStack" where
  "on_end_array element_count st =
     (if element_count > length st then Inl JSONError
      else (case end_array_loop element_count [] st of
              Inl e \<Rightarrow> Inl e
            | Inr (array, st') \<Rightarrow> Inr (push (PList array) st')))"

text \<open>
  One call of the handler, and the handler run over the calls the parser made, in
  their order: the first call that raises ends the run.
\<close>

definition call_handler :: "unicode_db \<Rightarrow> event \<Rightarrow> SimpleStack \<Rightarrow> exn + SimpleStack" where
  "call_handler U e st =
     (case e of
        On_literal kind txt \<Rightarrow> on_literal kind txt st
      | On_number kind txt \<Rightarrow> on_number U kind txt st
      | On_string txt \<Rightarrow> on_string txt st
      | On_begin_object \<Rightarrow> Inr st
      | On_member_name txt \<Rightarrow> on_member_name txt st
      | On_end_object member_count \<Rightarrow> on_end_object member_count st
      | On_begin_array \<Rightarrow> Inr st
      | On_end_array element_count \<Rightarrow> on_end_array element_count st
      | Textpos_changed p \<Rightarrow> Inr st)"

fun feed :: "unicode_db \<Rightarrow> event list \<Rightarrow> SimpleStack \<Rightarrow> exn + SimpleStack" where
  "feed U [] st = Inr st"
| "feed U (e # es) st =
     (case call_handler U e st of Inl x \<Rightarrow> Inl x | Inr st' \<Rightarrow> feed U es st')"

text \<open>
  \<open>SAXParser(reader, SAXHandlerBasic()).run()\<close>: the handler, starting from the empty
  stack, receives the parser's calls as they are made. If one of them raises, that
  exception leaves \<open>run\<close> (the parser had not got further); otherwise the outcome is
  the parser's, and on return the handler's stack is the result.
\<close>

definition run_basic :: "unicode_db \<Rightarrow> nat \<Rightarrow> pystr \<Rightarrow> SimpleStack outcome" where
  "run_basic U n input =
     (case run U n input of
        (out, ps) \<Rightarrow>
          (case feed U (sp_events ps) [] of
             Inl e \<Rightarrow> Raise e
           | Inr st \<Rightarrow>
               (case out of Done u \<Rightarrow> Done st | Raise e \<Rightarrow> Raise e | Timeout \<Rightarrow> Timeout)))"

text \<open>
  The first lexeme of a text, as the tests of the lexer read it:
  \<open>Lexer(io.StringIO(input)).next_lexeme()\<close>.
\<close>

definition first_lexeme :: "unicode_db \<Rightarrow> pystr \<Rightarrow> exn + Lexeme option" where
  "first_lexeme U input = map_sum id fst (next_lexeme U (Lexer_init input))"

section \<open>The code at particular inputs\<close>

text \<open>
  C2. The claim: an array whose closing bracket is missing raises the unclosed-array
  error at the position of its opening bracket. On the input \<open>[1\<close> the opening
  bracket is at line 1, column 1; \<open>parse_array\<close> raises the error at \<open>_curr_pos()\<close>,
  the lexer's current position, which is line 1, column 2 (\<open>parse_object\<close> saves
  \<open>start_pos\<close> for its own error; \<open>parse_array\<close> does not).
\<close>

theorem unclosed_array_position: 
  "fst (run U 4 (ascii ''[1'')) =
     Raise (JSONParserError \<lparr>line = 1, col = 2\<rparr> ERR_UNCLOSED_ARRAY [])"
  by code_simp

text \<open>
  C4. The claim: after a single \<open>0\<close> in the integer phase, with or without a
  preceding \<open>-\<close>, a further digit is rejected. The machine compares \<open>_value\<close> with
  \<open>"0"\<close>; after \<open>-0\<close> the value is \<open>"-0"\<close>, the digit is accepted, and \<open>-01\<close> is
  the integer token \<open>-01\<close>.
\<close>

theorem leading_zero_after_minus:
  "first_lexeme U (ascii ''-01'') =
     Inr (Some ((mk_lexeme \<lparr>line = 1, col = 1\<rparr> NUMBER_INT (ascii ''-01''))
                  \<lparr>numeric_kind := NT_INTEGER\<rparr>))"
  by code_simp

text \<open>
  C5. The claim: a \<open>-\<close> that is not the first character of the number or of its
  exponent makes \<open>read_char\<close> return false, and no character is consumed without
  being appended to the number's text. \<open>read_char\<close> returns true on such a \<open>-\<close>
  without accepting it, and \<open>1-2\<close> is the integer token \<open>12\<close>.
\<close>

theorem minus_inside_number:
  "first_lexeme U (ascii ''1-2'') =
     Inr (Some ((mk_lexeme \<lparr>line = 1, col = 1\<rparr> NUMBER_INT (ascii ''12''))
                  \<lparr>numeric_kind := NT_INTEGER\<rparr>))"
  by code_simp

text \<open>
  C7. The claim: a number scan that ends right after a sign with no digit following
  raises the invalid-number error. On \<open>1-\<close> the input ends right after the sign;
  the sign is consumed as in C5 and the result is the integer token \<open>1\<close>.
\<close>

theorem number_ending_in_sign:
  "first_lexeme U (ascii ''1-'') =
     Inr (Some ((mk_lexeme \<lparr>line = 1, col = 1\<rparr> NUMBER_INT (ascii ''1''))
                  \<lparr>numeric_kind := NT_INTEGER\<rparr>))"
  by code_simp

text \<open>
  C9. The claim: every failure that leaves \<open>run\<close> is a \<open>JSONParserError\<close>. The input
  is the eight characters \<open>"\u\<close>, four times U+00B2 (superscript two), \<open>"\<close>:
  \<open>is_hex_digit\<close> lets U+00B2 pass because \<open>str.isdigit()\<close> holds for it, and
  \<open>int(value, base = 16)\<close> then raises \<open>ValueError\<close> in \<open>handle_escaped_char\<close>, before
  the handler has been called at all.
\<close>

theorem value_error_leaves_run:
  "run ucd_excerpt 1 [34, 92, 117, 178, 178, 178, 178, 34] =
     (Raise ValueError, SAXParser_init [34, 92, 117, 178, 178, 178, 178, 34])"
  by code_simp

section \<open>Positions\<close>

text \<open>
  The position of a character, computed by hand from the text before it: its line is
  1 plus the number of line feeds before it, its column is 1 plus the number of
  characters between the last of these line feeds and it.
\<close>

definition pos_at :: "pystr \<Rightarrow> TextPos" where
  "pos_at pre =
     \<lparr>line = 1 + count_list pre 10,
      col = 1 + length (takeWhile (\<lambda>x. x \<noteq> 10) (rev pre))\<rparr>"

text \<open>
  The lexer while its current character is \<open>x\<close>, read after the text \<open>pre\<close> and
  before \<open>rest\<close>; and the lexer after \<open>read(1)\<close> found the stream at its end, the
  last character having followed \<open>pre\<close>.
\<close>

definition at_char :: "pystr \<Rightarrow> nat \<Rightarrow> pystr \<Rightarrow> bool \<Rightarrow> Lexer" where
  "at_char pre x rest acc =
     \<lparr>lx_reader = rest, lx_eof = False, lx_initial = False, lx_c = [x],
      lx_c_accepted = acc, lx_pos = pos_at pre\<rparr>"

definition at_end :: "pystr \<Rightarrow> bool \<Rightarrow> Lexer" where
  "at_end pre acc =
     \<lparr>lx_reader = [], lx_eof = True, lx_initial = False, lx_c = [],
      lx_c_accepted = acc, lx_pos = pos_at pre\<rparr>"


lemma pos_at_snoc:
  "pos_at (pre @ [x]) =
     (if x = 10 then \<lparr>line = line (pos_at pre) + 1, col = 1\<rparr>
      else \<lparr>line = line (pos_at pre), col = col (pos_at pre) + 1\<rparr>)"
  by (simp add: pos_at_def)

lemma next_char_at_char [simp]:
  "next_char (at_char pre x (y # rest) acc) = (True, at_char (pre @ [x]) y rest False)"
  by (simp add: next_char_def at_char_def Let_def pos_at_snoc newline_def)

lemma next_char_at_char_end [simp]:
  "next_char (at_char pre x [] acc) = (False, at_end pre acc)"
  by (simp add: next_char_def at_char_def at_end_def Let_def)

lemma next_char_at_end [simp]:
  "next_char (at_end pre acc) = (False, at_end pre acc)"
  by (simp add: next_char_def at_end_def Let_def)

lemma next_char_init:
  "next_char (Lexer_init (x # rest)) = (True, (at_char [] x rest False)\<lparr>lx_initial := True\<rparr>)"
  by (simp add: next_char_def at_char_def Lexer_init_def Let_def pos_at_def)

lemma next_char_init_Nil:
  "next_char (Lexer_init []) = (False, (Lexer_init [])\<lparr>lx_eof := True\<rparr>)"
  by (simp add: next_char_def Lexer_init_def Let_def)




section \<open>The lexer on a text, step by step\<close>

declare literal_loop.simps [simp del]
declare number_loop.simps [simp del]
declare string_loop.simps [simp del]
declare skip_whitespaces.simps [simp del]

text \<open>
  \<open>scan\<close> is the part of \<open>Lexer.next_lexeme\<close> that follows \<open>self._initial = False\<close>:
  the lemmas below run it on a lexer that is at a given character.
\<close>

definition scan :: "unicode_db \<Rightarrow> Lexer \<Rightarrow> exn + (Lexeme option \<times> Lexer)" where
  "scan U s1 =
     (let s2 = skip_whitespaces s1
      in if \<not> lx_c_accepted s2 then
           (let c = lx_c s2; p = lx_pos s2
            in if c = DQUOTE then handle_string U s2
               else if c \<in> DEC_DIGITS_S then handle_number U s2
               else (case STRUCTURALS c of
                       Some tok \<Rightarrow>
                         Inr (Some (mk_lexeme p tok c), s2\<lparr>lx_c_accepted := True\<rparr>)
                     | None \<Rightarrow>
                         if c \<in> LITERAL_PREFIXES then handle_literal s2
                         else Inl (JSONParserError p ERR_UNEXPECTED_CHAR_FMT [Some c])))
         else if lx_eof s2 then Inr (None, s2)
         else Inl (JSONParserError (lx_pos s2) ERR_UNEXPECTED_CHAR_FMT [Some (lx_c s2)]))"

lemma next_lexeme_scan:
  "next_lexeme U s0 =
     (let (ok, s1) = (if lx_c_accepted s0 \<or> lx_initial s0 then next_char s0 else (True, s0))
      in if \<not> ok then Inr (None, s1) else scan U (s1\<lparr>lx_initial := False\<rparr>))"
  unfolding next_lexeme_def scan_def ..

definition ws_char :: "nat \<Rightarrow> bool" where
  "ws_char x = (x = 32 \<or> x = 9 \<or> x = 13 \<or> x = 10)"

lemma is_whitespace_single [simp]: "is_whitespace [x] = ws_char x"
  by (auto simp: is_whitespace_def WHITESPACES_def ascii_def ws_char_def)

lemma is_whitespace_Nil [simp]: "\<not> is_whitespace []"
  by (simp add: is_whitespace_def WHITESPACES_def ascii_def)

lemma at_char_accept [simp]:
  "(at_char p x rest acc)\<lparr>lx_c_accepted := b\<rparr> = at_char p x rest b"
  by (simp add: at_char_def)

lemma at_char_initial [simp]:
  "(at_char p x rest acc)\<lparr>lx_initial := False\<rparr> = at_char p x rest acc"
  by (simp add: at_char_def)

lemma at_end_initial [simp]:
  "(at_end p acc)\<lparr>lx_initial := False\<rparr> = at_end p acc"
  by (simp add: at_end_def)

lemma at_char_sel [simp]:
  "lx_c (at_char p x rest acc) = [x]"
  "lx_reader (at_char p x rest acc) = rest"
  "lx_c_accepted (at_char p x rest acc) = acc"
  "lx_pos (at_char p x rest acc) = pos_at p"
  "lx_eof (at_char p x rest acc) = False"
  "lx_initial (at_char p x rest acc) = False"
  by (simp_all add: at_char_def)

lemma at_end_sel [simp]:
  "lx_c (at_end p acc) = []"
  "lx_reader (at_end p acc) = []"
  "lx_c_accepted (at_end p acc) = acc"
  "lx_pos (at_end p acc) = pos_at p"
  "lx_eof (at_end p acc) = True"
  "lx_initial (at_end p acc) = False"
  by (simp_all add: at_end_def)

lemma skip_whitespaces_at_end [simp]:
  "skip_whitespaces (at_end p acc) = at_end p acc"
  by (subst skip_whitespaces.simps) simp

lemma skip_whitespaces_not_ws:
  "\<not> ws_char x \<Longrightarrow> skip_whitespaces (at_char p x rest acc) = at_char p x rest acc"
  by (subst skip_whitespaces.simps) simp

lemma skip_whitespaces_ws:
  "ws_char x \<Longrightarrow>
   skip_whitespaces (at_char p x (y # r) acc) = skip_whitespaces (at_char (p @ [x]) y r False)"
  by (subst skip_whitespaces.simps) simp

lemma skip_whitespaces_ws_end:
  "ws_char x \<Longrightarrow> skip_whitespaces (at_char p x [] acc) = at_end p True"
  by (subst skip_whitespaces.simps) simp

lemma scan_ws:
  "ws_char x \<Longrightarrow> scan U (at_char p x (y # r) acc) = scan U (at_char (p @ [x]) y r False)"
  by (simp add: scan_def skip_whitespaces_ws)

lemma scan_ws_end:
  "ws_char x \<Longrightarrow> scan U (at_char p x [] acc) = Inr (None, at_end p True)"
  by (simp add: scan_def skip_whitespaces_ws_end)

lemma scan_ws_prefix:
  "list_all ws_char w \<Longrightarrow> w @ x # r = y # t \<Longrightarrow>
   scan U (at_char p y t False) = scan U (at_char (p @ w) x r False)"
proof (induction w arbitrary: p y t)
  case Nil
  then show ?case by simp
next
  case (Cons a w)
  then obtain y' t' where t: "w @ x # r = y' # t'" by (cases w) auto
  from Cons.prems have "a = y" "t = w @ x # r" "ws_char a" "list_all ws_char w" by auto
  with Cons.IH[OF _ t, of "p @ [a]"] t show ?case
    by (simp add: scan_ws)
qed

lemma scan_ws_all:
  "list_all ws_char (y # t) \<Longrightarrow>
   scan U (at_char p y t acc) = Inr (None, at_end (p @ butlast (y # t)) True)"
proof (induction t arbitrary: p y acc)
  case Nil
  then show ?case by (simp add: scan_ws_end)
next
  case (Cons a t)
  then show ?case by (simp add: scan_ws)
qed


section \<open>What the parser's calls do to the handler's stack\<close>

text \<open>
  \<open>pushes U k evs\<close>: whenever the basic handler gets through the calls \<open>evs\<close>, it
  leaves the stack it started from with \<open>k\<close> more items on top. \<open>ext U k ps ps'\<close>:
  the parser state \<open>ps'\<close> has made such calls since \<open>ps\<close>.
\<close>

lemma feed_append:
  "feed U (a @ b) st = (case feed U a st of Inl e \<Rightarrow> Inl e | Inr st1 \<Rightarrow> feed U b st1)"
  by (induction a arbitrary: st) (auto split: sum.splits)

definition pushes :: "unicode_db \<Rightarrow> nat \<Rightarrow> event list \<Rightarrow> bool" where
  "pushes U k evs \<longleftrightarrow>
     (\<forall>st st'. feed U evs st = Inr st' \<longrightarrow> (\<exists>vs. length vs = k \<and> st' = st @ vs))"

lemma pushes_Nil: "pushes U 0 []"
  by (simp add: pushes_def)

lemma pushes_append:
  assumes "pushes U a e1" "pushes U b e2"
  shows "pushes U (a + b) (e1 @ e2)"
  unfolding pushes_def
proof (intro allI impI)
  fix st st'
  assume f: "feed U (e1 @ e2) st = Inr st'"
  then obtain st1 where 1: "feed U e1 st = Inr st1" and 2: "feed U e2 st1 = Inr st'"
    by (auto simp: feed_append split: sum.splits)
  from assms(1) 1 obtain vs1 where "length vs1 = a" "st1 = st @ vs1" by (auto simp: pushes_def)
  moreover from assms(2) 2 obtain vs2 where "length vs2 = b" "st' = st1 @ vs2" by (auto simp: pushes_def)
  ultimately show "\<exists>vs. length vs = a + b \<and> st' = st @ vs"
    by (intro exI[of _ "vs1 @ vs2"]) simp
qed

lemma pushes_scalar:
  "pushes U (Suc 0) [On_literal k t]" "pushes U (Suc 0) [On_number nk t]" "pushes U (Suc 0) [On_string t]"
  "pushes U (Suc 0) [On_member_name t]" "pushes U 0 [On_begin_array]" "pushes U 0 [On_begin_object]"
  "pushes U 0 [Textpos_changed p]"
  by (auto simp: pushes_def call_handler_def on_literal_def on_number_def on_string_def
        on_member_name_def push_def split: sum.splits if_splits)

lemma pop_snoc [simp]: "pop (st @ [v]) = Inr (v, st)"
  by (simp add: pop_def)

lemma end_array_loop_app:
  "end_array_loop (length vs) acc (st @ vs) = Inr (vs @ acc, st)"
proof (induction vs arbitrary: acc rule: rev_induct)
  case Nil
  show ?case by simp
next
  case (snoc v vs)
  have "pop (st @ vs @ [v]) = Inr (v, st @ vs)"
    by (simp add: pop_def butlast_append)
  then show ?case using snoc[of "v # acc"] by simp
qed

lemma on_end_array_app:
  "on_end_array (length vs) (st @ vs) = Inr (st @ [PList vs])"
  using end_array_loop_app[of vs "[]" st] by (simp add: on_end_array_def push_def)

lemma pushes_end_array:
  assumes "pushes U k evs"
  shows "pushes U (Suc 0) (evs @ [On_end_array k])"
  unfolding pushes_def
proof (intro allI impI)
  fix st st'
  assume "feed U (evs @ [On_end_array k]) st = Inr st'"
  then obtain st1 where 1: "feed U evs st = Inr st1" and 2: "on_end_array k st1 = Inr st'"
    by (auto simp: feed_append call_handler_def split: sum.splits)
  from assms 1 obtain vs where "length vs = k" "st1 = st @ vs" by (auto simp: pushes_def)
  with 2 on_end_array_app[of vs st] show "\<exists>vs. length vs = Suc 0 \<and> st' = st @ vs" by auto
qed

lemma end_object_loop_app:
  "length vs = 2 * k \<Longrightarrow> end_object_loop k obj (st @ vs) = Inr (obj', st') \<Longrightarrow> st' = st"
proof (induction k arbitrary: vs obj)
  case 0
  then show ?case by simp
next
  case (Suc k)
  from Suc.prems(1) obtain vs0 a b where vs: "vs = vs0 @ [a, b]" and l: "length vs0 = 2 * k"
  proof -
    have "length vs \<ge> 2" using Suc.prems(1) by simp
    then obtain vs1 b where 1: "vs = vs1 @ [b]" by (cases vs rule: rev_cases) auto
    with Suc.prems(1) have "length vs1 \<ge> 1" by simp
    then obtain vs0 a where 2: "vs1 = vs0 @ [a]" by (cases vs1 rule: rev_cases) auto
    from 1 2 Suc.prems(1) have "vs = vs0 @ [a, b]" "length vs0 = 2 * k" by auto
    then show ?thesis using that by blast
  qed
  have e1: "st @ vs = (st @ vs0 @ [a]) @ [b]" using vs by simp
  have e2: "st @ vs0 @ [a] = (st @ vs0) @ [a]" by simp
  from Suc.prems(2) obtain kk where "end_object_loop k (fmupd kk b obj) (st @ vs0) = Inr (obj', st')"
    unfolding e1 end_object_loop.simps pop_snoc
    by (simp only: e2 pop_snoc sum.case prod.case split: sum.splits) auto
  from Suc.IH[OF l this] show ?case .
qed

lemma pushes_end_object:
  assumes "pushes U (2 * k) evs"
  shows "pushes U (Suc 0) (evs @ [On_end_object k])"
  unfolding pushes_def
proof (intro allI impI)
  fix st st'
  assume "feed U (evs @ [On_end_object k]) st = Inr st'"
  then obtain st1 where 1: "feed U evs st = Inr st1" and 2: "on_end_object k st1 = Inr st'"
    by (auto simp: feed_append call_handler_def split: sum.splits)
  from assms 1 obtain vs where vs: "length vs = 2 * k" "st1 = st @ vs" by (auto simp: pushes_def)
  from 2 obtain obj st2 where 3: "end_object_loop k fmempty st1 = Inr (obj, st2)" and "st' = st2 @ [PDict obj]"
    by (auto simp: on_end_object_def push_def Let_def split: if_splits sum.splits)
  with end_object_loop_app[OF vs(1), of fmempty st obj st2] vs(2)
  show "\<exists>vs. length vs = Suc 0 \<and> st' = st @ vs" by auto
qed


definition ext :: "unicode_db \<Rightarrow> nat \<Rightarrow> SAXParser \<Rightarrow> SAXParser \<Rightarrow> bool" where
  "ext U k ps ps' \<longleftrightarrow> (\<exists>evs. sp_events ps' = sp_events ps @ evs \<and> pushes U k evs)"

lemma ext_same: "sp_events ps' = sp_events ps \<Longrightarrow> ext U 0 ps ps'"
  by (simp add: ext_def pushes_Nil)

lemma ext_cong: "ext U a ps ps' \<Longrightarrow> a = b \<Longrightarrow> ext U b ps ps'"
  by simp

lemma ext_trans: "ext U a ps ps1 \<Longrightarrow> ext U b ps1 ps2 \<Longrightarrow> ext U (a + b) ps ps2"
  by (auto simp: ext_def intro: pushes_append)

lemma ext_emit: "pushes U k [e] \<Longrightarrow> ext U k ps (emit e ps)"
  by (auto simp: ext_def emit_def)

lemma ext_emit_after: "ext U a ps ps1 \<Longrightarrow> pushes U k [e] \<Longrightarrow> ext U (a + k) ps (emit e ps1)"
  by (rule ext_trans[OF _ ext_emit])

lemma ext_end_array: "ext U k ps ps1 \<Longrightarrow> ext U (Suc 0) ps (emit (On_end_array k) ps1)"
  by (auto simp: ext_def emit_def intro: pushes_end_array)

lemma ext_end_object: "ext U (2 * k) ps ps1 \<Longrightarrow> ext U (Suc 0) ps (emit (On_end_object k) ps1)"
  by (auto simp: ext_def emit_def intro: pushes_end_object)

lemma then_do_DoneE:
  assumes "then_do m f ps = (Done b, ps')"
  obtains a ps1 where "m ps = (Done a, ps1)" "f a ps1 = (Done b, ps')"
  using assms by (auto simp: then_do_def split: prod.splits outcome.splits)

lemma sax_next_lexeme_ext:
  "sax_next_lexeme U ps = (Done ok, ps') \<Longrightarrow> ext U 0 ps ps'"
  by (auto simp: sax_next_lexeme_def Let_def ext_def emit_def pushes_Nil pushes_scalar
        split: sum.splits prod.splits if_splits)

lemma parse_scalar_ext:
  "parse_literal ps = (Done u, ps') \<Longrightarrow> ext U (Suc 0) ps ps'"
  "parse_number ps = (Done u, ps') \<Longrightarrow> ext U (Suc 0) ps ps'"
  "parse_string ps = (Done u, ps') \<Longrightarrow> ext U (Suc 0) ps ps'"
  by (auto simp: parse_literal_def parse_number_def parse_string_def
        split: option.splits if_splits intro!: ext_emit pushes_scalar)

lemma parse_value_body_ext:
  assumes "\<And>ps u ps'. p_array ps = (Done u, ps') \<Longrightarrow> ext U (Suc 0) ps ps'"
    and "\<And>ps u ps'. p_object ps = (Done u, ps') \<Longrightarrow> ext U (Suc 0) ps ps'"
    and "parse_value_body p_array p_object ps = (Done u, ps')"
  shows "ext U (Suc 0) ps ps'"
  using assms(3) unfolding parse_value_body_def
  by (auto split: if_splits dest: assms(1,2) parse_scalar_ext)

lemma parse_array_body_ext:
  assumes items: "\<And>ps c k ps'. p_items c ps = (Done k, ps') \<Longrightarrow> c \<le> k \<and> ext U (k - c) ps ps'"
    and "parse_array_body U p_items ps = (Done u, ps')"
  shows "ext U (Suc 0) ps ps'"
proof -
  from assms(2) obtain ok ps1 k ps2 where
    nl: "sax_next_lexeme U (emit On_begin_array ps) = (Done ok, ps1)"
    and it: "(if ok \<and> \<not> curr_token_is ps1 END_ARRAY then p_items 0 ps1 else (Done 0, ps1)) = (Done k, ps2)"
    and fin: "ps' = emit (On_end_array k) ps2"
    unfolding parse_array_body_def
    by (auto split: if_splits elim!: then_do_DoneE)
  have 0: "ext U 0 ps ps1"
    using ext_trans[OF ext_emit[OF pushes_scalar(5)] sax_next_lexeme_ext[OF nl]] by simp
  have "ext U k ps1 ps2"
    using it items[of 0 ps1 k ps2] by (auto split: if_splits intro: ext_same)
  from ext_trans[OF 0 this] have "ext U k ps ps2" by simp
  then show ?thesis unfolding fin by (rule ext_end_array)
qed

lemma parse_array_items_body_ext:
  assumes val: "\<And>ps u ps'. p_value ps = (Done u, ps') \<Longrightarrow> ext U (Suc 0) ps ps'"
    and nxt: "\<And>ps c k ps'. p_next c ps = (Done k, ps') \<Longrightarrow> c \<le> k \<and> ext U (k - c) ps ps'"
    and "parse_array_items_body U p_value p_next c ps = (Done k, ps')"
  shows "c \<le> k \<and> ext U (k - c) ps ps'"
proof -
  from assms(3) obtain u psv ok ps1 where
    v: "p_value ps = (Done u, psv)" and nl: "sax_next_lexeme U psv = (Done ok, ps1)"
    and r: "(if ok \<and> curr_token_is ps1 VALUE_SEPARATOR
             then then_do (sax_next_lexeme U)
                    (\<lambda>ok2 ps2. if \<not> ok2
                       then (Raise (JSONParserError (curr_pos ps2) ERR_EXPECTED_ARRAY_ITEM []), ps2)
                       else p_next (c + 1) ps2) ps1
             else (Done (c + 1), ps1)) = (Done k, ps')"
    unfolding parse_array_items_body_def by (auto elim!: then_do_DoneE)
  have 1: "ext U (Suc 0) ps ps1"
    using ext_trans[OF val[OF v] sax_next_lexeme_ext[OF nl]] by simp
  show ?thesis
  proof (cases "ok \<and> curr_token_is ps1 VALUE_SEPARATOR")
    case False
    with r 1 show ?thesis by auto
  next
    case True
    with r obtain ok2 ps2 where nl2: "sax_next_lexeme U ps1 = (Done ok2, ps2)"
      and rec: "p_next (c + 1) ps2 = (Done k, ps')"
      by (auto elim!: then_do_DoneE split: if_splits)
    from nxt[OF rec] have k: "c + 1 \<le> k" and e: "ext U (k - (c + 1)) ps2 ps'" by auto
    have "ext U (Suc 0 + (0 + (k - (c + 1)))) ps ps'"
      by (rule ext_trans[OF 1 ext_trans[OF sax_next_lexeme_ext[OF nl2] e]])
    then have "ext U (k - c) ps ps'"
      by (rule ext_cong) (use k in simp)
    with k show ?thesis by simp
  qed
qed

lemma parse_object_body_ext:
  assumes membs: "\<And>ps c k ps'. p_members c ps = (Done k, ps') \<Longrightarrow> c \<le> k \<and> ext U (2 * (k - c)) ps ps'"
    and "parse_object_body U p_members ps = (Done u, ps')"
  shows "ext U (Suc 0) ps ps'"
proof -
  from assms(2) obtain ok ps1 k ps2 where
    nl: "sax_next_lexeme U (emit On_begin_object ps) = (Done ok, ps1)"
    and it: "(if ok \<and> \<not> curr_token_is ps1 END_OBJECT then p_members 0 ps1 else (Done 0, ps1)) = (Done k, ps2)"
    and fin: "ps' = emit (On_end_object k) ps2"
    unfolding parse_object_body_def Let_def
    by (auto split: if_splits elim!: then_do_DoneE)
  have 0: "ext U 0 ps ps1"
    using ext_trans[OF ext_emit[OF pushes_scalar(6)] sax_next_lexeme_ext[OF nl]] by simp
  have "ext U (2 * k) ps1 ps2"
    using it membs[of 0 ps1 k ps2] by (auto split: if_splits intro: ext_same)
  from ext_trans[OF 0 this] have "ext U (2 * k) ps ps2" by simp
  then show ?thesis unfolding fin by (rule ext_end_object)
qed

lemma parse_object_members_body_ext:
  assumes val: "\<And>ps u ps'. p_value ps = (Done u, ps') \<Longrightarrow> ext U (Suc 0) ps ps'"
    and nxt: "\<And>ps c k ps'. p_next c ps = (Done k, ps') \<Longrightarrow> c \<le> k \<and> ext U (2 * (k - c)) ps ps'"
    and "parse_object_members_body U p_value p_next c ps = (Done k, ps')"
  shows "c \<le> k \<and> ext U (2 * (k - c)) ps ps'"
proof -
  let ?nm = "emit (On_member_name (case curr_text ps of Some t \<Rightarrow> t | None \<Rightarrow> [])) ps"
  from assms(3) obtain ok ps1 ok2 ps2 u psv ok3 ps3 where
    nl1: "sax_next_lexeme U ?nm = (Done ok, ps1)"
    and nl2: "sax_next_lexeme U ps1 = (Done ok2, ps2)"
    and v: "p_value ps2 = (Done u, psv)"
    and nl3: "sax_next_lexeme U psv = (Done ok3, ps3)"
    and r: "(if ok3 \<and> curr_token_is ps3 VALUE_SEPARATOR
             then then_do (sax_next_lexeme U)
                    (\<lambda>ok4 ps4. if \<not> ok4
                       then (Raise (JSONParserError (curr_pos ps4) ERR_EXPECTED_MEMBER_NAME []), ps4)
                       else p_next (c + 1) ps4) ps3
             else (Done (c + 1), ps3)) = (Done k, ps')"
    unfolding parse_object_members_body_def
    by (auto elim!: then_do_DoneE split: if_splits)
  have a: "ext U (Suc 0) ps ps2"
    using ext_trans[OF ext_trans[OF ext_emit[OF pushes_scalar(4)] sax_next_lexeme_ext[OF nl1]]
            sax_next_lexeme_ext[OF nl2]] by simp
  have 2: "ext U 2 ps ps3"
    by (rule ext_cong[OF ext_trans[OF a ext_trans[OF val[OF v] sax_next_lexeme_ext[OF nl3]]]]) simp
  show ?thesis
  proof (cases "ok3 \<and> curr_token_is ps3 VALUE_SEPARATOR")
    case False
    with r 2 show ?thesis by auto
  next
    case True
    with r obtain ok4 ps4 where nl4: "sax_next_lexeme U ps3 = (Done ok4, ps4)"
      and rec: "p_next (c + 1) ps4 = (Done k, ps')"
      by (auto elim!: then_do_DoneE split: if_splits)
    from nxt[OF rec] have k: "c + 1 \<le> k" and e: "ext U (2 * (k - (c + 1))) ps4 ps'" by auto
    have "ext U (2 + (0 + 2 * (k - (c + 1)))) ps ps'"
      by (rule ext_trans[OF 2 ext_trans[OF sax_next_lexeme_ext[OF nl4] e]])
    then have "ext U (2 * (k - c)) ps ps'"
      by (rule ext_cong) (use k in simp)
    with k show ?thesis by simp
  qed
qed

lemma parse_ext:
  "(\<forall>ps u ps'. parse_value U n ps = (Done u, ps') \<longrightarrow> ext U (Suc 0) ps ps') \<and>
   (\<forall>ps u ps'. parse_array U n ps = (Done u, ps') \<longrightarrow> ext U (Suc 0) ps ps') \<and>
   (\<forall>ps c k ps'. parse_array_items U n c ps = (Done k, ps') \<longrightarrow> c \<le> k \<and> ext U (k - c) ps ps') \<and>
   (\<forall>ps u ps'. parse_object U n ps = (Done u, ps') \<longrightarrow> ext U (Suc 0) ps ps') \<and>
   (\<forall>ps c k ps'. parse_object_members U n c ps = (Done k, ps') \<longrightarrow>
        c \<le> k \<and> ext U (2 * (k - c)) ps ps')"
proof (induction n)
  case 0
  show ?case by simp
next
  case (Suc n)
  show ?case
  proof (intro conjI allI impI)
    fix ps u ps' assume "parse_value U (Suc n) ps = (Done u, ps')"
    then show "ext U (Suc 0) ps ps'"
      using Suc by (auto intro: parse_value_body_ext[where p_array="parse_array U n" and p_object="parse_object U n"])
  next
    fix ps u ps' assume "parse_array U (Suc n) ps = (Done u, ps')"
    then show "ext U (Suc 0) ps ps'"
      using Suc by (auto intro: parse_array_body_ext[where p_items="parse_array_items U n"])
  next
    fix ps c k ps' assume a: "parse_array_items U (Suc n) c ps = (Done k, ps')"
    have "c \<le> k \<and> ext U (k - c) ps ps'"
      by (rule parse_array_items_body_ext[where p_value="parse_value U n" and p_next="parse_array_items U n"])
         (use Suc a in auto)
    then show "c \<le> k" "ext U (k - c) ps ps'" by auto
  next
    fix ps u ps' assume "parse_object U (Suc n) ps = (Done u, ps')"
    then show "ext U (Suc 0) ps ps'"
      using Suc by (auto intro: parse_object_body_ext[where p_members="parse_object_members U n"])
  next
    fix ps c k ps' assume a: "parse_object_members U (Suc n) c ps = (Done k, ps')"
    have "c \<le> k \<and> ext U (2 * (k - c)) ps ps'"
      by (rule parse_object_members_body_ext[where p_value="parse_value U n" and p_next="parse_object_members U n"])
         (use Suc a in auto)
    then show "c \<le> k" "ext U (2 * (k - c)) ps ps'" by auto
  qed
qed


section \<open>The first lexeme and the stack after a run\<close>

lemma next_char_ok_not_eof: "next_char s = (True, s1) \<Longrightarrow> \<not> lx_eof s1"
  by (auto simp: next_char_def Let_def split: if_splits)

lemma string_loop_Some:
  "string_loop U sp v s = Inr (r, s') \<Longrightarrow> r \<noteq> None \<and> \<not> lx_eof s'"
proof (induction U sp v s rule: string_loop.induct)
  case (1 U sp v s)
  obtain ok s1 where nc: "next_char s = (ok, s1)" by (cases "next_char s")
  obtain ok2 s2 where nc2: "next_char s1 = (ok2, s2)" by (cases "next_char s1")
  note prem = "1.prems"[unfolded string_loop.simps[of U sp v s] nc Let_def prod.case]
  show ?case
  proof (cases ok)
    case False
    with prem show ?thesis by simp
  next
    case True
    note ok = True
    show ?thesis
    proof (cases "lx_c s1 = DQUOTE")
      case True
      with prem ok next_char_ok_not_eof[of s s1] nc show ?thesis by auto
    next
      case nq: False
      show ?thesis
      proof (cases "lx_c s1 = BACKSLASH")
        case False
        with prem ok nq have "string_loop U sp (v @ lx_c s1) (s1\<lparr>lx_c_accepted := True\<rparr>) = Inr (r, s')"
          by simp
        from "1.IH"(3)[OF nc[symmetric] refl _ nq False this] ok show ?thesis by simp
      next
        case bs: True
        note prem2 = prem[unfolded nc2 prod.case]
        show ?thesis
        proof (cases ok2)
          case False
          with prem2 ok nq bs show ?thesis by simp
        next
          case ok2: True
          show ?thesis
          proof (cases "ESCAPE_CHARS (lx_c s2)")
            case (Some esc)
            with prem2 ok nq bs ok2
            have "string_loop U sp (v @ esc) (s2\<lparr>lx_c_accepted := True\<rparr>) = Inr (r, s')" by simp
            from "1.IH"(2)[OF nc[symmetric] refl _ nq bs refl nc2[symmetric] refl _ Some this] ok ok2
            show ?thesis by simp
          next
            case None
            show ?thesis
            proof (cases "lx_c s2 = ascii ''u''")
              case False
              with prem2 ok nq bs ok2 None show ?thesis by simp
            next
              case u: True
              show ?thesis
              proof (cases "handle_escaped_char U (lx_pos s1) s2")
                case (Inl e)
                with prem2 ok nq bs ok2 None u show ?thesis by simp
              next
                case (Inr b)
                obtain ch s3 where b: "b = (ch, s3)" by (cases b)
                with Inr prem2 ok nq bs ok2 None u
                have "string_loop U sp (v @ ch) s3 = Inr (r, s')" by simp
                from "1.IH"(1)[OF nc[symmetric] refl _ nq bs refl nc2[symmetric] refl _ None u Inr b[symmetric] this] ok ok2
                show ?thesis by simp
              qed
            qed
          qed
        qed
      qed
    qed
  qed
qed


lemma scan_not_ws:
  "\<not> ws_char x \<Longrightarrow>
   scan U (at_char p x rest False) =
     (if [x] = DQUOTE then handle_string U (at_char p x rest False)
      else if [x] \<in> DEC_DIGITS_S then handle_number U (at_char p x rest False)
      else (case STRUCTURALS [x] of
              Some tok \<Rightarrow> Inr (Some (mk_lexeme (pos_at p) tok [x]), at_char p x rest True)
            | None \<Rightarrow>
                if [x] \<in> LITERAL_PREFIXES then handle_literal (at_char p x rest False)
                else Inl (JSONParserError (pos_at p) ERR_UNEXPECTED_CHAR_FMT [Some [x]])))"
  by (simp add: scan_def skip_whitespaces_not_ws Let_def split: option.splits)

lemma handle_number_Some: "handle_number U s = Inr (r, s') \<Longrightarrow> r \<noteq> None"
  by (auto simp: handle_number_def Let_def split: prod.splits if_splits)

lemma handle_literal_Some: "handle_literal s = Inr (r, s') \<Longrightarrow> r \<noteq> None"
  by (auto simp: handle_literal_def Let_def split: prod.splits if_splits)

lemma scan_not_None:
  assumes "\<not> ws_char x" "scan U (at_char p x rest False) = Inr (r, s')"
  shows "r \<noteq> None"
  using assms(2) unfolding scan_not_ws[OF assms(1)]
  by (auto simp: handle_string_def split: if_splits option.splits
        dest: string_loop_Some handle_number_Some handle_literal_Some)

lemma at_char_initial_True_False [simp]:
  "((at_char p x rest acc)\<lparr>lx_initial := True\<rparr>)\<lparr>lx_initial := False\<rparr> = at_char p x rest acc"
  by (simp add: at_char_def)

lemma next_lexeme_init_Cons:
  "next_lexeme U (Lexer_init (y # t)) = scan U (at_char [] y t False)"
  by (simp add: next_lexeme_scan next_char_init) (simp add: Lexer_init_def)

lemma next_lexeme_init_Nil:
  "next_lexeme U (Lexer_init []) = Inr (None, (Lexer_init [])\<lparr>lx_eof := True\<rparr>)"
  by (simp add: next_lexeme_scan next_char_init_Nil) (simp add: Lexer_init_def)

lemma split_ws:
  assumes "\<not> list_all ws_char t"
  obtains w x r where "t = w @ x # r" "list_all ws_char w" "\<not> ws_char x"
proof -
  let ?w = "takeWhile ws_char t" and ?d = "dropWhile ws_char t"
  from assms have "?d \<noteq> []" by (auto simp: list_all_iff)
  then obtain x r where d: "?d = x # r" by (cases ?d) auto
  then have "\<not> ws_char x" using hd_dropWhile[of ws_char t] by auto
  moreover have "t = ?w @ x # r" using d takeWhile_dropWhile_id[of ws_char t] by simp
  moreover have "list_all ws_char ?w" by (auto simp: list_all_iff dest: set_takeWhileD)
  ultimately show ?thesis using that by blast
qed

lemma first_lexeme_blank:
  assumes "list_all ws_char input"
  shows "\<exists>s'. next_lexeme U (Lexer_init input) = Inr (None, s') \<and> lx_eof s'"
proof (cases input)
  case Nil
  then show ?thesis by (simp add: next_lexeme_init_Nil)
next
  case (Cons y t)
  with assms show ?thesis
    using scan_ws_all[of y t U "[]" False] by (simp add: next_lexeme_init_Cons)
qed

lemma first_lexeme_not_blank:
  assumes "\<not> list_all ws_char input" "next_lexeme U (Lexer_init input) = Inr (r, s')"
  shows "r \<noteq> None"
proof -
  from assms(1) obtain w x rest where t: "input = w @ x # rest" "list_all ws_char w" "\<not> ws_char x"
    by (rule split_ws)
  obtain y t where yt: "input = y # t" using t(1) by (cases w) auto
  have "next_lexeme U (Lexer_init input) = scan U (at_char ([] @ w) x rest False)"
    unfolding yt next_lexeme_init_Cons
    by (rule scan_ws_prefix[OF t(2)]) (use t(1) yt in simp)
  with assms(2) scan_not_None[OF t(3), of U w rest r s'] show ?thesis by simp
qed

lemma parse_doc_tail_ext:
  "parse_doc_tail U ps = (Done u, ps') \<Longrightarrow> ext U 0 ps ps'"
  unfolding parse_doc_tail_def
  by (auto elim!: then_do_DoneE split: if_splits dest: sax_next_lexeme_ext)

lemma run_stack:
  assumes "run_basic U n input = Done st"
  shows "if list_all ws_char input then st = [] else (\<exists>v. st = [v])"
proof -
  let ?ps0 = "SAXParser_init input"
  from assms obtain u ps where run: "parse_doc U n ?ps0 = (Done u, ps)"
    and fd: "feed U (sp_events ps) [] = Inr st"
    by (auto simp: run_basic_def run_def split: prod.splits sum.splits outcome.splits)
  from run obtain ok ps1 where nl: "sax_next_lexeme U ?ps0 = (Done ok, ps1)"
    and rest: "(if ok then then_do (parse_value U n) (\<lambda>_. parse_doc_tail U) ps1
               else if sax_eof ps1 then (Done (), ps1) else parse_doc_tail U ps1) = (Done u, ps)"
    unfolding parse_doc_def by (auto elim!: then_do_DoneE)
  have ev0: "sp_events ?ps0 = []" by (simp add: SAXParser_init_def)
  have lex0: "sp_lexer ?ps0 = Lexer_init input" by (simp add: SAXParser_init_def)
  have ok_iff: "ok \<longleftrightarrow> \<not> list_all ws_char input"
  proof (cases "list_all ws_char input")
    case True
    from first_lexeme_blank[OF True, of U] nl lex0 show ?thesis
      by (auto simp: sax_next_lexeme_def Let_def True)
  next
    case False
    from nl lex0 obtain r s' where "next_lexeme U (Lexer_init input) = Inr (r, s')" "ok \<longleftrightarrow> r \<noteq> None"
      by (auto simp: sax_next_lexeme_def Let_def split: sum.splits prod.splits if_splits)
    with first_lexeme_not_blank[OF False, of U r s'] False show ?thesis by simp
  qed
  have e1: "ext U 0 ?ps0 ps1" by (rule sax_next_lexeme_ext[OF nl])
  show ?thesis
  proof (cases ok)
    case True
    with rest obtain u1 ps2 where pv: "parse_value U n ps1 = (Done u1, ps2)"
      and tl: "parse_doc_tail U ps2 = (Done u, ps)"
      by (auto elim!: then_do_DoneE)
    from parse_ext[of U n] pv have "ext U (Suc 0) ps1 ps2" by blast
    from ext_trans[OF e1 ext_trans[OF this parse_doc_tail_ext[OF tl]]]
    have "ext U (Suc 0) ?ps0 ps" by simp
    then obtain evs where "sp_events ps = evs" "pushes U (Suc 0) evs"
      using ev0 by (auto simp: ext_def)
    with fd obtain vs where "length vs = Suc 0" "st = [] @ vs"
      unfolding pushes_def by blast
    then have "\<exists>v. st = [v]" by (cases vs) auto
    with True ok_iff show ?thesis by simp
  next
    case False
    with rest have "ext U 0 ps1 ps"
      by (auto split: if_splits intro: ext_same dest: parse_doc_tail_ext)
    from ext_trans[OF e1 this] have "ext U 0 ?ps0 ps" by simp
    with ev0 fd have "st = []" by (auto simp: ext_def pushes_def)
    with False ok_iff show ?thesis by simp
  qed
qed

text \<open>
  C10. When \<open>run\<close> has returned with a basic handler, the handler's stack is empty if
  the input was empty or blank, and holds exactly one item otherwise. Reading
  \<open>result\<close> with one item on the stack returns it and leaves the stack empty;
  reading it with an empty stack returns \<open>None\<close> and leaves the stack empty, so
  every later read returns \<open>None\<close>; reading it with more than one item raises
  \<open>JSONError\<close>.
\<close>

theorem result_is_destructive:
  assumes "run_basic U n input = Done st"
  shows "(if list_all ws_char input then st = []
          else (\<exists>v. st = [v] \<and> result st = Inr (v, [])))
         \<and> result [] = Inr (PNone, [])
         \<and> (\<forall>st'. 1 < length st' \<longrightarrow> result st' = Inl JSONError)"
proof -
  have "result [v] = Inr (v, [])" for v by (simp add: result_def pop_def)
  moreover have "result [] = Inr (PNone, [])" by (simp add: result_def)
  moreover have "1 < length st' \<Longrightarrow> result st' = Inl JSONError" for st'
    by (cases st') (simp_all add: result_def)
  ultimately show ?thesis using run_stack[OF assms] by (auto split: if_splits)
qed

theorem result_is_destructive_witness:
  "run_basic ucd_excerpt 1 (ascii ''true'') = Done [PBool True]
   \<and> result [PBool True] = Inr (PBool True, [])
   \<and> result [] = Inr (PNone, [])
   \<and> result [PNone, PNone] = Inl JSONError"
proof -
  have r: "run_basic ucd_excerpt 1 (ascii ''true'') = Done [PBool True]" by code_simp
  have nb: "\<not> list_all ws_char (ascii ''true'')" by (simp add: ascii_def ws_char_def)
  from result_is_destructive[OF r] nb show ?thesis using r by auto
qed


section \<open>String tokens\<close>

text \<open>
  The hexadecimal digits of the JSON grammar and their values.
\<close>

definition ascii_hex :: "nat \<Rightarrow> bool" where
  "ascii_hex x = ((48 \<le> x \<and> x \<le> 57) \<or> (65 \<le> x \<and> x \<le> 70) \<or> (97 \<le> x \<and> x \<le> 102))"

definition hex_digit_value :: "nat \<Rightarrow> nat" where
  "hex_digit_value x = (if x \<le> 57 then x - 48 else if x \<le> 70 then x - 55 else x - 87)"

lemma hex_value_ascii: "ascii_hex x \<Longrightarrow> hex_value U x = Some (hex_digit_value x)"
  by (auto simp: ascii_hex_def hex_value_def hex_digit_value_def decimal_value_def)

lemma isdigit_ascii: "48 \<le> x \<Longrightarrow> x \<le> 57 \<Longrightarrow> isdigit U [x]"
  by (simp add: isdigit_def isdigit_cp_def decimal_value_def)

lemma is_hex_digit_ascii: "ascii_hex x \<Longrightarrow> is_hex_digit U [x]"
proof -
  assume a: "ascii_hex x"
  have "65 \<le> x \<Longrightarrow> x \<le> 70 \<Longrightarrow> x = 65 \<or> x = 66 \<or> x = 67 \<or> x = 68 \<or> x = 69 \<or> x = 70" by arith
  moreover have "97 \<le> x \<Longrightarrow> x \<le> 102 \<Longrightarrow> x = 97 \<or> x = 98 \<or> x = 99 \<or> x = 100 \<or> x = 101 \<or> x = 102" by arith
  ultimately show ?thesis using a isdigit_ascii[of x U]
    by (auto simp: is_hex_digit_def ascii_hex_def HEX_DIGITS_def ascii_def)
qed

declare escaped_loop.simps [simp del]

lemma escaped_loop_at_0: "escaped_loop U start 0 val s = Inr (val, s)"
  by (simp add: escaped_loop.simps)

lemma escaped_loop_at_Nil:
  "escaped_loop U start (Suc i) val (at_char p x [] acc) =
     Inl (JSONParserError start ERR_UNALLOWED_ESCAPE_SEQ [])"
  by (simp add: escaped_loop.simps)

lemma escaped_loop_at_Cons:
  "escaped_loop U start (Suc i) val (at_char p x (y # r) acc) =
     (if is_hex_digit U [y] then escaped_loop U start i (val @ [y]) (at_char (p @ [x]) y r True)
      else Inl (JSONParserError start ERR_UNALLOWED_ESCAPE_SEQ []))"
  by (simp add: escaped_loop.simps)

lemma escaped_loop_bad:
  "length rest < i \<or> (\<exists>y \<in> set (take i rest). \<not> is_hex_digit U [y]) \<Longrightarrow>
   escaped_loop U start i val (at_char p x rest acc) =
     Inl (JSONParserError start ERR_UNALLOWED_ESCAPE_SEQ [])"
proof (induction i arbitrary: val p x rest acc)
  case 0
  then show ?case by simp
next
  case (Suc i)
  show ?case
  proof (cases rest)
    case Nil
    then show ?thesis by (simp only: escaped_loop_at_Nil)
  next
    case (Cons y r)
    show ?thesis
    proof (cases "is_hex_digit U [y]")
      case False
      then show ?thesis unfolding Cons by (simp only: escaped_loop_at_Cons if_False)
    next
      case True
      with Suc.prems Cons have "length r < i \<or> (\<exists>y \<in> set (take i r). \<not> is_hex_digit U [y])"
        by auto
      from Suc.IH[OF this] True show ?thesis unfolding Cons
        by (simp only: escaped_loop_at_Cons if_True)
    qed
  qed
qed

lemma handle_escaped_char_bad:
  "length rest < 4 \<or> (\<exists>y \<in> set (take 4 rest). \<not> is_hex_digit U [y]) \<Longrightarrow>
   handle_escaped_char U start (at_char p x rest acc) =
     Inl (JSONParserError start ERR_UNALLOWED_ESCAPE_SEQ [])"
  by (simp add: handle_escaped_char_def escaped_loop_bad)

lemma handle_escaped_char_good:
  assumes "ascii_hex a" "ascii_hex b" "ascii_hex c" "ascii_hex d"
  shows "handle_escaped_char U start (at_char p x (a # b # c # d # rest) acc) =
     Inr ([4096 * hex_digit_value a + 256 * hex_digit_value b + 16 * hex_digit_value c
           + hex_digit_value d],
          at_char (p @ [x, a, b, c]) d rest True)"
proof -
  have n4: "4 = Suc (Suc (Suc (Suc 0)))" by simp
  have "escaped_loop U start 4 [] (at_char p x (a # b # c # d # rest) acc)
        = Inr ([a, b, c, d], at_char (p @ [x, a, b, c]) d rest True)"
    unfolding n4 using assms
    by (simp add: escaped_loop_at_Cons escaped_loop_at_0 is_hex_digit_ascii)
  moreover have "int_base16 U 0 [a, b, c, d]
     = Some (4096 * hex_digit_value a + 256 * hex_digit_value b + 16 * hex_digit_value c
           + hex_digit_value d)"
    using assms by (simp add: hex_value_ascii)
  ultimately show ?thesis by (simp add: handle_escaped_char_def)
qed

lemma string_loop_at_Nil:
  "string_loop U sp v (at_char p x [] acc) = Inl (JSONParserError (pos_at p) ERR_UNCLOSED_STRING [])"
  by (subst string_loop.simps) simp

lemma string_loop_at_quote:
  "string_loop U sp v (at_char p x (34 # r) acc) =
     Inr (Some (mk_lexeme sp STRING v), at_char (p @ [x]) 34 r True)"
  by (subst string_loop.simps) simp


lemma string_loop_at_backslash_Nil:
  "string_loop U sp v (at_char p x [92] acc) =
     Inl (JSONParserError (pos_at (p @ [x])) ERR_UNCLOSED_STRING [])"
  by (subst string_loop.simps) simp


lemma ESCAPE_CHARS_u: "ESCAPE_CHARS [117] = None"
  by (simp add: ESCAPE_CHARS_def ascii_def)

lemma string_loop_at_u:
  "string_loop U sp v (at_char p x (92 # 117 # r) acc) =
     (case handle_escaped_char U (pos_at (p @ [x])) (at_char (p @ [x, 92]) 117 r False) of
        Inl e \<Rightarrow> Inl e
      | Inr (ch, s3) \<Rightarrow> string_loop U sp (v @ ch) s3)"
  by (subst string_loop.simps) (simp add: ESCAPE_CHARS_u ascii_def)

lemma string_loop_at_unrecognized:
  "ESCAPE_CHARS [e] = None \<Longrightarrow> e \<noteq> 117 \<Longrightarrow>
   string_loop U sp v (at_char p x (92 # e # r) acc) =
     Inl (JSONParserError (pos_at (p @ [x])) ERR_UNRECOGNIZED_ESCAPE_SEQ_FMT [Some [92, e]])"
  by (subst string_loop.simps) (simp add: ascii_def)

text \<open>
  C6, as amended. Inside a string token (the lexer is in the loop of
  \<open>handle_string\<close>, at any character \<open>x\<close> of the token, and a backslash and \<open>u\<close>
  follow): if four ASCII hexadecimal digits follow the \<open>u\<close>, the loop goes on after
  them with the single character of that code point appended to the token's value;
  if one of the four characters after the \<open>u\<close> is missing, or is one that
  \<open>is_hex_digit\<close> does not accept, the lexer raises the unallowed-escape-sequence
  error, at the position of the backslash (\<open>pos_at (p @ [x])\<close>, the position of
  the character that follows \<open>x\<close>).
\<close>

theorem unicode_escape:
  "(ascii_hex a \<and> ascii_hex b \<and> ascii_hex c \<and> ascii_hex d \<longrightarrow>
      string_loop U sp v (at_char p x (92 # 117 # a # b # c # d # rest) acc)
        = string_loop U sp
            (v @ [4096 * hex_digit_value a + 256 * hex_digit_value b
                  + 16 * hex_digit_value c + hex_digit_value d])
            (at_char (p @ [x, 92, 117, a, b, c]) d rest True))
   \<and> (length rest' < 4 \<or> (\<exists>y \<in> set (take 4 rest'). \<not> is_hex_digit U [y]) \<longrightarrow>
      string_loop U sp v (at_char p x (92 # 117 # rest') acc)
        = Inl (JSONParserError (pos_at (p @ [x])) ERR_UNALLOWED_ESCAPE_SEQ []))"
  by (simp add: string_loop_at_u handle_escaped_char_good handle_escaped_char_bad)


theorem unicode_escape_witness:
  "ascii_hex 49 \<and> ascii_hex 50 \<and> ascii_hex 51 \<and> ascii_hex 52
   \<and> string_loop ucd_excerpt \<lparr>line = 1, col = 1\<rparr> []
         (at_char [] 34 [92, 117, 49, 50, 51, 52, 34] False)
       = Inr (Some (mk_lexeme \<lparr>line = 1, col = 1\<rparr> STRING [4660]),
              at_char [34, 92, 117, 49, 50, 51, 52] 34 [] True)
   \<and> \<not> is_hex_digit ucd_excerpt [34]
   \<and> string_loop ucd_excerpt \<lparr>line = 1, col = 1\<rparr> []
         (at_char [] 34 [92, 117, 49, 50, 51, 34] False)
       = Inl (JSONParserError \<lparr>line = 1, col = 2\<rparr> ERR_UNALLOWED_ESCAPE_SEQ [])"
proof -
  have h: "ascii_hex 49 \<and> ascii_hex 50 \<and> ascii_hex 51 \<and> ascii_hex 52"
    by (simp add: ascii_hex_def)
  have nh: "\<not> is_hex_digit ucd_excerpt [34]"
    by (simp add: is_hex_digit_def isdigit_def isdigit_cp_def decimal_value_def HEX_DIGITS_def
          ascii_def)
  have b: "length [49, 50, 51, 34::nat] < 4
           \<or> (\<exists>y \<in> set (take 4 [49, 50, 51, 34]). \<not> is_hex_digit ucd_excerpt [y])"
    using nh by simp
  note t = unicode_escape[of 49 50 51 52 ucd_excerpt "\<lparr>line = 1, col = 1\<rparr>" "[]" "[]" 34 "[34]"
      False "[49, 50, 51, 34]"]
  from t h have "string_loop ucd_excerpt \<lparr>line = 1, col = 1\<rparr> []
         (at_char [] 34 [92, 117, 49, 50, 51, 52, 34] False)
       = Inr (Some (mk_lexeme \<lparr>line = 1, col = 1\<rparr> STRING [4660]),
              at_char [34, 92, 117, 49, 50, 51, 52] 34 [] True)"
    by (simp add: string_loop_at_quote hex_digit_value_def)
  moreover from t b have "string_loop ucd_excerpt \<lparr>line = 1, col = 1\<rparr> []
         (at_char [] 34 [92, 117, 49, 50, 51, 34] False)
       = Inl (JSONParserError \<lparr>line = 1, col = 2\<rparr> ERR_UNALLOWED_ESCAPE_SEQ [])"
    by (simp add: pos_at_def)
  ultimately show ?thesis using h nh by blast
qed

text \<open>
  C6 as stated puts the error at the \<open>u\<close>. On the seven characters \<open>"\u123"\<close> the
  \<open>u\<close> is the third character, at line 1, column 3, and the error is raised at
  line 1, column 2, where the backslash is.
\<close>

theorem unicode_escape_error_not_at_u:
  "first_lexeme ucd_excerpt [34, 92, 117, 49, 50, 51, 34]
     = Inl (JSONParserError \<lparr>line = 1, col = 2\<rparr> ERR_UNALLOWED_ESCAPE_SEQ [])
   \<and> [34, 92, 117, 49, 50, 51, 34] ! 2 = (117::nat)
   \<and> pos_at (take 2 [34, 92, 117, 49, 50, 51, 34]) = \<lparr>line = 1, col = 3\<rparr>"
  by code_simp


section \<open>Where the lexer stands in a text\<close>









section \<open>Structural and literal tokens\<close>

text \<open>
  \<open>delim r\<close>: the text \<open>r\<close> can follow a literal or a number, that is, it is empty or
  begins with a whitespace or structural character. \<open>after_scalar p tk r\<close> is the
  lexer after it has read the literal or number \<open>tk\<close> that followed \<open>p\<close>: it has read
  one character further, the first of \<open>r\<close>, or found the end of the stream.
\<close>

definition structural_char :: "nat \<Rightarrow> bool" where
  "structural_char x = (x = 91 \<or> x = 123 \<or> x = 93 \<or> x = 125 \<or> x = 58 \<or> x = 44)"


lemma STRUCTURALS_single:
  "STRUCTURALS [x] =
     (if x = 91 then Some BEGIN_ARRAY else if x = 123 then Some BEGIN_OBJECT
      else if x = 93 then Some END_ARRAY else if x = 125 then Some END_OBJECT
      else if x = 58 then Some NAME_SEPARATOR else if x = 44 then Some VALUE_SEPARATOR
      else None)"
  by (simp add: STRUCTURALS_def ascii_def)

lemma is_structural_single [simp]: "is_structural [x] = structural_char x"
  by (simp add: is_structural_def STRUCTURALS_single structural_char_def)

lemma is_structural_Nil [simp]: "\<not> is_structural []"
  by (simp add: is_structural_def STRUCTURALS_def ascii_def)




definition after_scalar :: "pystr \<Rightarrow> pystr \<Rightarrow> pystr \<Rightarrow> Lexer" where
  "after_scalar p tk r =
     (case r of [] \<Rightarrow> at_end (p @ butlast tk) True | d # r' \<Rightarrow> at_char (p @ tk) d r' False)"


lemma lx_eof_after_scalar [simp]: "lx_eof (after_scalar p tk r) \<longleftrightarrow> r = []"
  by (simp add: after_scalar_def split: list.splits)






section \<open>Number tokens\<close>

text \<open>
  \<open>read_chars\<close> feeds a text to the machine for as long as \<open>read_char\<close> returns true
  (\<open>None\<close>: a character was rejected).
\<close>

fun read_chars :: "unicode_db \<Rightarrow> NumericParser \<Rightarrow> pystr \<Rightarrow> NumericParser option" where
  "read_chars U np [] = Some np"
| "read_chars U np (x # xs) =
     (case read_char U [x] np of (True, np1) \<Rightarrow> read_chars U np1 xs | (False, np1) \<Rightarrow> None)"








text \<open>
  The numbers of the JSON grammar (RFC 8259, section 6), by their parts: an optional
  minus, the digits of the integer part (a single \<open>0\<close>, or digits that do not start
  with \<open>0\<close>), an optional fraction (the digits after the point), an optional exponent
  (the letter \<open>e\<close> or \<open>E\<close>, an optional sign, digits). \<open>num_text\<close> is the number as
  written. \<open>mach np val acc ty cc dc\<close> names the five fields of the machine.
\<close>

datatype jnumber = JNumber bool pystr "pystr option" "(nat \<times> pystr \<times> pystr) option"



fun num_text :: "jnumber \<Rightarrow> pystr" where
  "num_text (JNumber neg ip fp ex) =
     (if neg then [45] else []) @ ip
     @ (case fp of None \<Rightarrow> [] | Some ds \<Rightarrow> 46 # ds)
     @ (case ex of None \<Rightarrow> [] | Some (e, sg, ds) \<Rightarrow> e # sg @ ds)"


fun num_kind :: "jnumber \<Rightarrow> NumericTokenKind" where
  "num_kind (JNumber neg ip fp ex) =
     (if ex \<noteq> None then NT_FLOAT else if fp \<noteq> None then NT_DECIMAL else NT_INTEGER)"











lemma read_chars_single:
  "read_char U [x] np = (True, np') \<Longrightarrow> read_chars U np [x] = Some np'"
  by simp






section \<open>The contents of a string token\<close>

text \<open>
  The text between the quotes of a JSON string (RFC 8259, section 7) and the string it
  stands for: \<open>unescape enc\<close> is \<open>None\<close> when \<open>enc\<close> is not such a text (a bare
  quote, a control character, or a backslash that does not begin an escape: a
  backslash and a quote, a backslash, a slash or one of the letters \<open>b f n r t\<close>, or
  a backslash, the letter \<open>u\<close> and four hexadecimal digits).
\<close>

definition simple_escape :: "nat \<Rightarrow> nat option" where
  "simple_escape e =
     (if e = 34 then Some 34 else if e = 92 then Some 92 else if e = 47 then Some 47
      else if e = 98 then Some 8 else if e = 102 then Some 12 else if e = 110 then Some 10
      else if e = 114 then Some 13 else if e = 116 then Some 9 else None)"

fun unescape :: "pystr \<Rightarrow> pystr option" where
  "unescape [] = Some []"
| "unescape (x # xs) =
     (if x = 92 then
        (case xs of
           [] \<Rightarrow> None
         | e # r \<Rightarrow>
             (case simple_escape e of
                Some ch \<Rightarrow> map_option ((#) ch) (unescape r)
              | None \<Rightarrow>
                  if e = 117 then
                    (case r of
                       a # b # c # d # r' \<Rightarrow>
                         if ascii_hex a \<and> ascii_hex b \<and> ascii_hex c \<and> ascii_hex d
                         then map_option
                                ((#) (4096 * hex_digit_value a + 256 * hex_digit_value b
                                      + 16 * hex_digit_value c + hex_digit_value d))
                                (unescape r')
                         else None
                     | _ \<Rightarrow> None)
                  else None))
      else if x = 34 \<or> x < 32 then None
      else map_option ((#) x) (unescape xs))"





section \<open>JSON documents\<close>

text \<open>
  The texts of the JSON grammar (RFC 8259), as trees that keep the layout: \<open>render\<close>
  writes a tree out, so that the well-formed documents are the texts
  \<open>w1 @ render v @ w2\<close> with \<open>wf_value v\<close> and \<open>w1\<close>, \<open>w2\<close> whitespace. An array
  \<open>JArr w es\<close> is an opening bracket, whitespace \<open>w\<close>, its elements separated
  by commas, and a closing bracket; an element is a value between whitespace. A
  member of an object is, between whitespace, a name (the text between its quotes
  is kept), a colon, and a value. A string \<open>JStr enc\<close> keeps the text between its
  quotes.

  \<open>value_of\<close> is the value a document stands for, as a Python value: an integer for
  a number without fraction and exponent, the float read from the number's text
  otherwise, the decoded string, the list of the elements' values in their order,
  and for an object the map from the decoded names to the members' values (where a
  name is repeated, \<open>fmap_of_list\<close> keeps the value of its first member).

  \<open>fuel v\<close> bounds the depth of the calls \<open>parse_value\<close> makes on \<open>v\<close>.
\<close>

datatype jvalue =
    JNull | JTrue | JFalse
  | JNum jnumber
  | JStr pystr
  | JArr pystr "jelem list"
  | JObj pystr "jmember list"
and jelem = Elem pystr jvalue pystr
and jmember = Member pystr pystr pystr pystr jvalue pystr

definition commas :: "pystr list \<Rightarrow> pystr" where
  "commas ts = (case ts of [] \<Rightarrow> [] | t # r \<Rightarrow> t @ concat (map ((#) 44) r))"

definition quoted :: "pystr \<Rightarrow> pystr" where
  "quoted enc = 34 # enc @ [34]"

fun render :: "jvalue \<Rightarrow> pystr"
  and render_elem :: "jelem \<Rightarrow> pystr"
  and render_member :: "jmember \<Rightarrow> pystr" where
  "render JNull = ascii ''null''"
| "render JTrue = ascii ''true''"
| "render JFalse = ascii ''false''"
| "render (JNum n) = num_text n"
| "render (JStr enc) = quoted enc"
| "render (JArr w es) = 91 # w @ commas (map render_elem es) @ [93]"
| "render (JObj w ms) = 123 # w @ commas (map render_member ms) @ [125]"
| "render_elem (Elem w1 v w2) = w1 @ render v @ w2"
| "render_member (Member w1 name w2 w3 v w4) =
     w1 @ quoted name @ w2 @ 58 # w3 @ render v @ w4"


definition decoded :: "pystr \<Rightarrow> pystr" where
  "decoded enc = (case unescape enc of Some str \<Rightarrow> str | None \<Rightarrow> [])"






section \<open>The first token of a value\<close>

text \<open>
  What \<open>Lexer.next_lexeme\<close> returns where a structural character, a string, a
  literal, a number, and so the first token of any well-formed value, comes next in
  the text, after whitespace \<open>w\<close>. \<open>lexeme_of pos v\<close> is the lexeme of the first
  token of \<open>v\<close>, \<open>token_text v\<close> its text and \<open>after_token v\<close> the rest of \<open>v\<close>; a
  literal or a number (\<open>bare\<close>) must be followed by a delimiter or by the end.
\<close>

fun lexeme_of :: "TextPos \<Rightarrow> jvalue \<Rightarrow> Lexeme" where
  "lexeme_of pos JNull = (mk_lexeme pos LITERAL_NULL (ascii ''null''))\<lparr>literal_kind := LT_NULL\<rparr>"
| "lexeme_of pos JTrue = (mk_lexeme pos LITERAL_TRUE (ascii ''true''))\<lparr>literal_kind := LT_TRUE\<rparr>"
| "lexeme_of pos JFalse = (mk_lexeme pos LITERAL_FALSE (ascii ''false''))\<lparr>literal_kind := LT_FALSE\<rparr>"
| "lexeme_of pos (JNum n) =
     (mk_lexeme pos
        (if num_kind n = NT_DECIMAL then NUMBER_DECIMAL
         else if num_kind n = NT_FLOAT then NUMBER_FLOAT else NUMBER_INT)
        (num_text n))\<lparr>numeric_kind := num_kind n\<rparr>"
| "lexeme_of pos (JStr enc) = mk_lexeme pos STRING (decoded enc)"
| "lexeme_of pos (JArr w es) = mk_lexeme pos BEGIN_ARRAY [91]"
| "lexeme_of pos (JObj w ms) = mk_lexeme pos BEGIN_OBJECT [123]"

fun token_text :: "jvalue \<Rightarrow> pystr" where
  "token_text (JArr w es) = [91]"
| "token_text (JObj w ms) = [123]"
| "token_text v = render v"

fun after_token :: "jvalue \<Rightarrow> pystr" where
  "after_token (JArr w es) = w @ commas (map render_elem es) @ [93]"
| "after_token (JObj w ms) = w @ commas (map render_member ms) @ [125]"
| "after_token v = []"


lemma render_split: "render v = token_text v @ after_token v"
  by (cases v) simp_all









section \<open>The values the basic handler builds\<close>

text \<open>
  \<open>yields U evs vs\<close>: the basic handler gets through the calls \<open>evs\<close> and leaves the
  stack it started from with the values \<open>vs\<close> on top. \<open>gives U vs ps ps'\<close>: the parser
  state \<open>ps'\<close> has made such calls since \<open>ps\<close>. \<open>flat kvs\<close> is what the members of an
  object leave on the stack before \<open>on_end_object\<close>: each name under its value.
\<close>

definition yields :: "unicode_db \<Rightarrow> event list \<Rightarrow> pyval list \<Rightarrow> bool" where
  "yields U evs vs \<longleftrightarrow> (\<forall>st. feed U evs st = Inr (st @ vs))"

definition gives :: "unicode_db \<Rightarrow> pyval list \<Rightarrow> SAXParser \<Rightarrow> SAXParser \<Rightarrow> bool" where
  "gives U vs ps ps' \<longleftrightarrow> (\<exists>evs. sp_events ps' = sp_events ps @ evs \<and> yields U evs vs)"



lemma yields_Nil: "yields U [] []"
  by (simp add: yields_def)


















lemma gives_same: "sp_events ps' = sp_events ps \<Longrightarrow> gives U [] ps ps'"
  by (simp add: gives_def yields_Nil)






section \<open>The parser on a well-formed value\<close>





lemma emit_sel [simp]:
  "sp_lexer (emit e ps) = sp_lexer ps" "sp_curr (emit e ps) = sp_curr ps"
  "curr_token (emit e ps) = curr_token ps" "curr_text (emit e ps) = curr_text ps"
  by (simp_all add: emit_def curr_token_def curr_text_def)









lemma curr_token_lexeme_of:
  "sp_curr ps = Some (lexeme_of pos v) \<Longrightarrow>
   curr_token ps =
     (case v of JNull \<Rightarrow> LITERAL_NULL | JTrue \<Rightarrow> LITERAL_TRUE | JFalse \<Rightarrow> LITERAL_FALSE
      | JNum n \<Rightarrow> (if num_kind n = NT_DECIMAL then NUMBER_DECIMAL
                    else if num_kind n = NT_FLOAT then NUMBER_FLOAT else NUMBER_INT)
      | JStr enc \<Rightarrow> STRING | JArr w es \<Rightarrow> BEGIN_ARRAY | JObj w ms \<Rightarrow> BEGIN_OBJECT)"
  by (cases v) (simp_all add: curr_token_def mk_lexeme_def)














section \<open>A run on a well-formed document\<close>









end
